theory Spec2Isabelle
  imports Main "HOL-Library.Word"
begin

section \<open>The grubby evaluator (interpreter/vm/vm.go)\<close>

text \<open>
  The theory embeds \<^verbatim>\<open>vm.go\<close>: the state of a \<^verbatim>\<open>vm\<close>, the top-level run
  \<^verbatim>\<open>Run\<close>, the recursive evaluator \<^verbatim>\<open>executeWithContext\<close> and the three methods
  that \<^verbatim>\<open>NewVM\<close> installs on the top-level receiver (\<^verbatim>\<open>to_s\<close>, \<^verbatim>\<open>require\<close>,
  \<^verbatim>\<open>puts\<close>).

  The packages \<^verbatim>\<open>ast\<close>, \<^verbatim>\<open>parser\<close> and \<^verbatim>\<open>builtins\<close> are imported by
  \<^verbatim>\<open>vm.go\<close> and are not part of the sources at hand. The syntax tree is modelled
  with the node kinds and the fields that \<^verbatim>\<open>vm.go\<close> reads; the parser, the file system
  and the behaviour of the built-in values are parameters of the model, collected in
  the record \<open>ext\<close>.
\<close>

subsection \<open>Syntax tree\<close>

text \<open>
  One constructor for each node kind that the type switch of \<^verbatim>\<open>executeWithContext\<close>
  names, with the fields that are read there. \<open>Rescue\<close> is the element type of
  \<^verbatim>\<open>Begin.Rescue\<close>; \<open>OtherNode\<close> stands for every node kind that the switch does not
  list. The target of a call is a nil-able node, hence an option. A Go \<^verbatim>\<open>int\<close> is
  carried as an integer and a \<^verbatim>\<open>float64\<close> as its 64 bits: the evaluator only moves
  them into values.
\<close>

datatype node =
    IfBlock node "node list" "node list"
  | FuncDecl string
  | SimpleString string
  | InterpolatedString string
  | Boolean bool
  | GlobalVariable string
  | ConstantInt int
  | ConstantFloat "64 word"
  | Symbol string
  | BareReference string
  | CallExpression "node option" string "node list"
  | Assignment node node
  | FileNameConstReference
  | Begin "node list" "node list"
  | Rescue string "node list"
  | OtherNode string

subsection \<open>Methods, values and errors\<close>

text \<open>
  A \<^verbatim>\<open>builtins.Method\<close> is a name with a Go closure. The closures written in
  \<^verbatim>\<open>vm.go\<close> are \<open>MainToS\<close>, \<open>MainRequire\<close>, \<open>MainPuts\<close> (installed on
  \<^verbatim>\<open>main\<close> by \<^verbatim>\<open>NewVM\<close>) and \<open>DeclaredStub\<close> (the closure returning
  \<^verbatim>\<open>nil, nil\<close> that a function declaration creates). \<open>BuiltinMethod name k\<close> is a
  method of the \<^verbatim>\<open>builtins\<close> package; \<open>k\<close> identifies its closure.
\<close>

datatype go_method =
    MainToS
  | MainRequire
  | MainPuts
  | DeclaredStub string
  | BuiltinMethod string nat

text \<open>
  A \<^verbatim>\<open>builtins.Value\<close> is a Go interface value, so it can be \<^verbatim>\<open>nil\<close>:
  \<open>GoNil\<close>. A symbol is a pointer to an allocated object: \<open>SymbolValue a name\<close> is the
  symbol object at address \<open>a\<close>; two symbol values are the same instance when their
  addresses are equal. \<open>TrueValue\<close>, \<open>FalseValue\<close> and \<open>NilValue\<close> are what
  \<^verbatim>\<open>New()\<close> of the classes \<^verbatim>\<open>True\<close>, \<^verbatim>\<open>False\<close> and \<^verbatim>\<open>Nil\<close> returns
  (modelled from the spec: the boolean singletons and the nil singleton; the classes
  are not in the sources).
\<close>

datatype val =
    GoNil
  | StringValue string
  | IntValue int
  | FloatValue "64 word"
  | SymbolValue nat string
  | TrueValue
  | FalseValue
  | NilValue
  | MainObject
  | ClassValue string
  | ArrayValue nat
  | ObjectValue nat
  | MethodValue go_method

text \<open>
  A Go \<^verbatim>\<open>error\<close>. The backtrace argument of the error constructors is
  \<^verbatim>\<open>vm.stack.String()\<close>; the rendering of a call stack is not in the sources, so the
  error carries the list of frames that was rendered. \<open>ParseError\<close> is the type
  declared in \<^verbatim>\<open>vm.go\<close>: it has the method \<^verbatim>\<open>Error\<close> only, so it is not a
  \<^verbatim>\<open>builtins.Value\<close>. \<open>RaisedError\<close> is an error value returned by a built-in method.
\<close>

datatype error =
    ParseError string
  | NameError string string string "string list"
  | NoMethodError string string string "string list"
  | LoadError string "string list"
  | RaisedError string

fun is_builtins_Value :: "error \<Rightarrow> bool" where
  "is_builtins_Value (ParseError _) = False"
| "is_builtins_Value _ = True"

text \<open>
  What a Go call delivers: it returns a value and an error (\<open>None\<close> is the \<^verbatim>\<open>nil\<close>
  error), or it panics, or it does not return within the call depth that the model
  explores (\<open>Diverged\<close>).
\<close>

datatype outcome =
    Returned val "error option"
  | Panic
  | Diverged

text \<open>
  Input and output, in the order in which it happens: every call of \<^verbatim>\<open>os.Open\<close>
  with its path, every line that \<^verbatim>\<open>puts\<close> writes to the standard output, and the
  \<^verbatim>\<open>fmt.Printf\<close> of a call expression whose method is not found.
\<close>

datatype io_event =
    OsOpen string
  | StdoutWrite string
  | StdoutPrintf val

subsection \<open>State\<close>

text \<open>
  The fields of \<^verbatim>\<open>struct vm\<close>; \<^verbatim>\<open>stack\<close> is the list of frame names, first the
  most recent one. \<^verbatim>\<open>CurrentClasses\<close> is filled once by \<^verbatim>\<open>registerClasses\<close> and
  only read afterwards, so it is not a field of the state. Three more fields hold what
  the Go program keeps outside of the struct: \<open>heap\<close> is the state of the objects of the
  \<^verbatim>\<open>builtins\<close> package (method tables, array members), \<open>allocated\<close> counts the
  symbol objects that \<^verbatim>\<open>NewSymbol\<close> has allocated (the next one gets this number
  as its address), and \<open>trace\<close> is the input and output done so far.
\<close>

record 'h vm =
  currentFilename :: string
  ObjectSpace :: "string \<rightharpoonup> val"
  CurrentGlobals :: "string \<rightharpoonup> val"
  CurrentSymbols :: "string \<rightharpoonup> val"
  stack :: "string list"
  heap :: 'h
  allocated :: nat
  trace :: "io_event list"

text \<open>
  The parameters of the model.
  \<^item> \<open>RubyParse\<close>: \<^verbatim>\<open>parser.RubyParse\<close> with \<^verbatim>\<open>parser.Statements\<close>; \<open>None\<close> is a
    non-zero result.
  \<^item> \<open>os_Open\<close>: whether \<^verbatim>\<open>os.Open\<close> of the path succeeds; \<open>ReadAll\<close>: what
    \<^verbatim>\<open>ioutil.ReadAll\<close> of the opened file returns, \<open>None\<close> for an error. The file
    system does not change during an evaluation.
  \<^item> \<open>Join\<close>: \<^verbatim>\<open>filepath.Join\<close> of two elements.
  \<^item> \<open>Members\<close>: the members of the array that \<^verbatim>\<open>NewVM\<close> binds to \<^verbatim>\<open>loadPath\<close>.
  \<^item> \<open>Method\<close>: \<^verbatim>\<open>Method(name)\<close> of a value, \<open>None\<close> for an error.
  \<^item> \<open>Execute\<close>: \<^verbatim>\<open>Execute\<close> of a method of the \<^verbatim>\<open>builtins\<close> package. Such a
    method has no access to the \<^verbatim>\<open>vm\<close>; it reads and changes the heap.
  \<^item> \<open>AddPrivateMethod\<close>: \<^verbatim>\<open>AddPrivateMethod\<close> of a value.
  \<^item> \<open>value_String\<close>, \<open>class_String\<close>: \<^verbatim>\<open>String()\<close> and \<^verbatim>\<open>Class().String()\<close> of
    a value that is not \<^verbatim>\<open>nil\<close>; \<open>error_String\<close>: \<^verbatim>\<open>String()\<close> of an error that
    is a \<^verbatim>\<open>builtins.Value\<close>.
\<close>

record 'h ext =
  RubyParse :: "string \<Rightarrow> node list option"
  os_Open :: "string \<Rightarrow> bool"
  ReadAll :: "string \<Rightarrow> string option"
  Join :: "string \<Rightarrow> string \<Rightarrow> string"
  Members :: "'h \<Rightarrow> val list"
  Method :: "'h \<Rightarrow> val \<Rightarrow> string \<Rightarrow> go_method option"
  Execute :: "string \<Rightarrow> nat \<Rightarrow> val list \<Rightarrow> 'h \<Rightarrow> outcome \<times> 'h"
  AddPrivateMethod :: "val \<Rightarrow> go_method \<Rightarrow> 'h \<Rightarrow> 'h"
  value_String :: "'h \<Rightarrow> val \<Rightarrow> string"
  class_String :: "'h \<Rightarrow> val \<Rightarrow> string"
  error_String :: "error \<Rightarrow> string"

text \<open>The evaluator as seen from the code that calls it: statements, context, state.\<close>

type_synonym 'h evaluator = "node list \<Rightarrow> val \<Rightarrow> 'h vm \<Rightarrow> outcome \<times> 'h vm"

subsection \<open>Call stack\<close>

text \<open>
  Modelled from the spec: the type \<^verbatim>\<open>CallStack\<close> is not in the sources. Push is
  prepend and pop is remove-front. A pop of the empty stack leaves it empty here; the
  evaluator pops only what it has pushed.
\<close>

definition Unshift :: "string \<Rightarrow> 'h vm \<Rightarrow> 'h vm" where
  "Unshift label s = s\<lparr>stack := label # stack s\<rparr>"

definition Shift :: "'h vm \<Rightarrow> 'h vm" where
  "Shift s = s\<lparr>stack := tl (stack s)\<rparr>"

text \<open>
  Modelled from the spec: \<^verbatim>\<open>Name()\<close> of a method, which is not in the sources, is the
  name given to \<^verbatim>\<open>NewMethod\<close> (the frame of a call is named after the resolved
  method).
\<close>

fun method_Name :: "go_method \<Rightarrow> string" where
  "method_Name MainToS = ''to_s''"
| "method_Name MainRequire = ''require''"
| "method_Name MainPuts = ''puts''"
| "method_Name (DeclaredStub name) = name"
| "method_Name (BuiltinMethod name k) = name"

subsection \<open>Accessors\<close>

definition MustGet :: "'h vm \<Rightarrow> string \<Rightarrow> val" where
  "MustGet s key =
     (case ObjectSpace s key of
        Some v \<Rightarrow> v
      | None \<Rightarrow> (case CurrentGlobals s key of Some v \<Rightarrow> v | None \<Rightarrow> GoNil))"

definition Get :: "'h vm \<Rightarrow> string \<Rightarrow> string + val" where
  "Get s key =
     (case ObjectSpace s key of
        Some v \<Rightarrow> Inr v
      | None \<Rightarrow>
          (case CurrentGlobals s key of
             Some v \<Rightarrow> Inr v
           | None \<Rightarrow> Inl ([CHR 0x27] @ key @ [CHR 0x27] @ '' is undefined'')))"

definition Set_vm :: "string \<Rightarrow> val \<Rightarrow> 'h vm \<Rightarrow> 'h vm" where
  "Set_vm key v s = s\<lparr>ObjectSpace := (ObjectSpace s)(key \<mapsto> v)\<rparr>"

text \<open>A Go map read without the second result: a missing key gives \<^verbatim>\<open>nil\<close>.\<close>

definition map_index :: "(string \<rightharpoonup> val) \<Rightarrow> string \<Rightarrow> val" where
  "map_index m key = (case m key of Some v \<Rightarrow> v | None \<Rightarrow> GoNil)"

subsection \<open>The local variables of \<^verbatim>\<open>executeWithContext\<close>\<close>

text \<open>
  \<^verbatim>\<open>returnValue\<close> and \<^verbatim>\<open>returnErr\<close> are declared before the loop and live for the
  whole call. \<open>deferred\<close> counts the calls \<^verbatim>\<open>defer vm.stack.Shift()\<close> registered
  so far: a deferred call runs when the surrounding function \<^verbatim>\<open>executeWithContext\<close>
  returns, not at the end of the loop iteration that registered it.
\<close>

record locals =
  returnValue :: val
  returnErr :: "error option"
  deferred :: nat

text \<open>
  What one iteration of the loop does: go on with the next statement (\<open>Next\<close>), or leave
  the function (\<open>Exit\<close>: a \<^verbatim>\<open>return\<close> or a panic) with the given number of
  deferred calls pending.
\<close>

datatype step =
    Next locals
  | Exit outcome nat

text \<open>The assignment \<^verbatim>\<open>returnValue, returnErr = vm.executeWithContext(...)\<close>.\<close>

fun assign_result :: "outcome \<Rightarrow> locals \<Rightarrow> step" where
  "assign_result (Returned v e) l = Next (l\<lparr>returnValue := v, returnErr := e\<rparr>)"
| "assign_result Panic l = Exit Panic (deferred l)"
| "assign_result Diverged l = Exit Diverged (deferred l)"

subsection \<open>The methods of \<^verbatim>\<open>main\<close>\<close>

text \<open>
  \<^verbatim>\<open>Run\<close>, with the evaluator it calls as an argument. \<^verbatim>\<open>defer vm.stack.Shift()\<close>
  is the last thing it does.
\<close>

definition Run_with :: "'h ext \<Rightarrow> 'h evaluator \<Rightarrow> string \<Rightarrow> 'h vm \<Rightarrow> outcome \<times> 'h vm" where
  "Run_with E ev input s =
     (case RubyParse E input of
        None \<Rightarrow> (Returned GoNil (Some (ParseError (currentFilename s))), s)
      | Some statements \<Rightarrow>
          (let main = map_index (ObjectSpace s) ''main'';
               (out, s') = ev statements main (Unshift ''main'' s)
           in (out, Shift s')))"

text \<open>
  What \<^verbatim>\<open>require\<close> does with a file that it has opened and read: the name of the
  unit is saved, set to \<^verbatim>\<open>file.Name()\<close> (the path given to \<^verbatim>\<open>os.Open\<close>) and,
  by the deferred function, set back when the closure is left. The value of the nested
  run is dropped; its error is returned with a new instance of \<^verbatim>\<open>True\<close>.
\<close>

definition load_file ::
  "'h ext \<Rightarrow> 'h evaluator \<Rightarrow> string \<Rightarrow> string \<Rightarrow> 'h vm \<Rightarrow> outcome \<times> 'h vm" where
  "load_file E ev fullPath contents s =
     (let originalName = currentFilename s;
          (out, s2) = Run_with E ev contents (s\<lparr>currentFilename := fullPath\<rparr>);
          s3 = s2\<lparr>currentFilename := originalName\<rparr>
      in (case out of
            Returned v rubyErr \<Rightarrow> (Returned TrueValue rubyErr, s3)
          | Panic \<Rightarrow> (Panic, s3)
          | Diverged \<Rightarrow> (Diverged, s3)))"

text \<open>
  The loop of \<^verbatim>\<open>require\<close> over the members of the load path. A member that is not a
  string makes the type assertion panic. When the file opens and is read, the nested run
  follows and the function returns. When the file does not open, or opens and cannot
  be read, the loop goes on with the next member.
\<close>

fun search_load_path ::
  "'h ext \<Rightarrow> 'h evaluator \<Rightarrow> string \<Rightarrow> val list \<Rightarrow> 'h vm \<Rightarrow> outcome \<times> 'h vm" where
  "search_load_path E ev fileName [] s =
     (Returned GoNil
        (Some (LoadError (''LoadError: cannot load such file -- '' @ fileName) (stack s))), s)"
| "search_load_path E ev fileName (StringValue path # rest) s =
     (let fullPath = Join E path (fileName @ ''.rb'');
          s1 = s\<lparr>trace := trace s @ [OsOpen fullPath]\<rparr>
      in if \<not> os_Open E fullPath then search_load_path E ev fileName rest s1
         else
           (case ReadAll E fullPath of
              None \<Rightarrow> search_load_path E ev fileName rest s1
            | Some contents \<Rightarrow> load_file E ev fullPath contents s1))"
| "search_load_path E ev fileName (other # rest) s = (Panic, s)"

text \<open>
  The closure of \<^verbatim>\<open>require\<close>. \<^verbatim>\<open>args[0]\<close> panics when there is no argument, and
  the type assertion to \<^verbatim>\<open>*builtins.StringValue\<close> panics when the first argument is
  not a string.
\<close>

fun require :: "'h ext \<Rightarrow> 'h evaluator \<Rightarrow> val list \<Rightarrow> 'h vm \<Rightarrow> outcome \<times> 'h vm" where
  "require E ev [] s = (Panic, s)"
| "require E ev (StringValue fileName # args) s =
     (if fileName = ''rubygems'' then (Returned FalseValue None, s)
      else search_load_path E ev fileName (Members E (heap s)) s)"
| "require E ev (other # args) s = (Panic, s)"

text \<open>
  The closure of \<^verbatim>\<open>puts\<close>: one write for each argument. \<^verbatim>\<open>String()\<close> of a
  \<^verbatim>\<open>nil\<close> argument panics.
\<close>

fun puts :: "'h ext \<Rightarrow> val list \<Rightarrow> 'h vm \<Rightarrow> outcome \<times> 'h vm" where
  "puts E [] s = (Returned GoNil None, s)"
| "puts E (arg # args) s =
     (if arg = GoNil then (Panic, s)
      else puts E args
             (s\<lparr>trace := trace s @ [StdoutWrite (value_String E (heap s) arg @ [CHR 0x0A])]\<rparr>))"

text \<open>\<^verbatim>\<open>method.Execute(args...)\<close>.\<close>

fun method_Execute ::
  "'h ext \<Rightarrow> 'h evaluator \<Rightarrow> go_method \<Rightarrow> val list \<Rightarrow> 'h vm \<Rightarrow> outcome \<times> 'h vm" where
  "method_Execute E ev MainToS args s = (Returned (StringValue ''main'') None, s)"
| "method_Execute E ev MainRequire args s = require E ev args s"
| "method_Execute E ev MainPuts args s = puts E args s"
| "method_Execute E ev (DeclaredStub name) args s = (Returned GoNil None, s)"
| "method_Execute E ev (BuiltinMethod name k) args s =
     (let (out, h) = Execute E name k args (heap s) in (out, s\<lparr>heap := h\<rparr>))"

subsection \<open>The cases of the type switch\<close>

text \<open>The inner type switch on the condition of an \<^verbatim>\<open>ast.IfBlock\<close>.\<close>

fun truthy :: "node \<Rightarrow> bool" where
  "truthy (Boolean b) = b"
| "truthy (BareReference name) = (name = ''nil'')"
| "truthy other = True"

definition exec_IfBlock ::
  "'h evaluator \<Rightarrow> val \<Rightarrow> node \<Rightarrow> node list \<Rightarrow> node list \<Rightarrow> locals \<Rightarrow> 'h vm \<Rightarrow> step \<times> 'h vm" where
  "exec_IfBlock ev context cond body else_body l s =
     (let (out, s') = (if truthy cond then ev body context s else ev else_body context s)
      in (assign_result out l, s'))"

text \<open>
  \<^verbatim>\<open>ast.FuncDecl\<close>: \<^verbatim>\<open>vm.ObjectSpace["Kernel"]\<close> is a map read; a method call on the
  \<^verbatim>\<open>nil\<close> it gives for a missing key panics.
\<close>

definition exec_FuncDecl :: "'h ext \<Rightarrow> string \<Rightarrow> locals \<Rightarrow> 'h vm \<Rightarrow> step \<times> 'h vm" where
  "exec_FuncDecl E name l s =
     (let method = DeclaredStub name;
          l' = l\<lparr>returnValue := MethodValue method\<rparr>;
          kernel = map_index (ObjectSpace s) ''Kernel''
      in if kernel = GoNil then (Exit Panic (deferred l'), s)
         else (Next l', s\<lparr>heap := AddPrivateMethod E kernel method (heap s)\<rparr>))"

definition exec_Symbol :: "string \<Rightarrow> locals \<Rightarrow> 'h vm \<Rightarrow> step \<times> 'h vm" where
  "exec_Symbol name l s =
     (case CurrentSymbols s name of
        None \<Rightarrow>
          (let v = SymbolValue (allocated s) name
           in (Next (l\<lparr>returnValue := v\<rparr>),
               s\<lparr>allocated := Suc (allocated s),
                 CurrentSymbols := (CurrentSymbols s)(name \<mapsto> v)\<rparr>))
      | Some maybe \<Rightarrow> (Next (l\<lparr>returnValue := maybe\<rparr>), s))"

text \<open>
  \<^verbatim>\<open>ast.BareReference\<close>: on a miss \<^verbatim>\<open>context.String()\<close> is called, which panics
  for a \<^verbatim>\<open>nil\<close> context.
\<close>

definition exec_BareReference ::
  "'h ext \<Rightarrow> val \<Rightarrow> string \<Rightarrow> locals \<Rightarrow> 'h vm \<Rightarrow> step \<times> 'h vm" where
  "exec_BareReference E context name l s =
     (case ObjectSpace s name of
        Some maybe \<Rightarrow> (Next (l\<lparr>returnValue := maybe\<rparr>), s)
      | None \<Rightarrow>
          if context = GoNil then (Exit Panic (deferred l), s)
          else (Next (l\<lparr>returnErr := Some (NameError name (value_String E (heap s) context)
                                            (class_String E (heap s) context) (stack s))\<rparr>), s))"

text \<open>
  The loop over the arguments of a call: each one is evaluated as a sequence of one
  node against the context of the caller; the first error leaves the function with
  \<^verbatim>\<open>return nil, err\<close>.
\<close>

fun eval_args ::
  "'h evaluator \<Rightarrow> val \<Rightarrow> node list \<Rightarrow> val list \<Rightarrow> 'h vm \<Rightarrow> (outcome + val list) \<times> 'h vm" where
  "eval_args ev context [] args s = (Inr args, s)"
| "eval_args ev context (astArgument # rest) args s =
     (case ev [astArgument] context s of
        (Returned arg None, s') \<Rightarrow> eval_args ev context rest (args @ [arg]) s'
      | (Returned arg (Some err), s') \<Rightarrow> (Inl (Returned GoNil (Some err)), s')
      | (Panic, s') \<Rightarrow> (Inl Panic, s')
      | (Diverged, s') \<Rightarrow> (Inl Diverged, s'))"

text \<open>
  The call once the target is known: the \<^verbatim>\<open>nil\<close> check, the method lookup, the
  arguments, the frame, the deferred pop, the execution.
\<close>

definition call_target ::
  "'h ext \<Rightarrow> 'h evaluator \<Rightarrow> val \<Rightarrow> string \<Rightarrow> node list \<Rightarrow> val \<Rightarrow> locals \<Rightarrow> 'h vm
     \<Rightarrow> step \<times> 'h vm" where
  "call_target E ev context func astArgs target l s =
     (if target = GoNil then
        (Exit (Returned GoNil
                 (Some (NoMethodError func (value_String E (heap s) NilValue)
                          (class_String E (heap s) NilValue) (stack s))))
           (deferred l), s)
      else
        (case Method E (heap s) target func of
           None \<Rightarrow>
             (Exit (Returned GoNil
                      (Some (NameError func (value_String E (heap s) target)
                               (class_String E (heap s) target) (stack s))))
                (deferred l),
              s\<lparr>trace := trace s @ [StdoutPrintf target]\<rparr>)
         | Some method \<Rightarrow>
             (case eval_args ev context astArgs [] s of
                (Inl out, s1) \<Rightarrow> (Exit out (deferred l), s1)
              | (Inr args, s1) \<Rightarrow>
                  (let s2 = Unshift (method_Name method) s1;
                       l2 = l\<lparr>deferred := Suc (deferred l)\<rparr>;
                       (out, s3) = method_Execute E ev method args s2
                   in (case out of
                         Returned v None \<Rightarrow> (Next (l2\<lparr>returnValue := v, returnErr := None\<rparr>), s3)
                       | Returned v (Some err) \<Rightarrow> (Exit (Returned v (Some err)) (deferred l2), s3)
                       | Panic \<Rightarrow> (Exit Panic (deferred l2), s3)
                       | Diverged \<Rightarrow> (Exit Diverged (deferred l2), s3))))))"

text \<open>
  \<^verbatim>\<open>ast.CallExpression\<close>: with a target, \<^verbatim>\<open>target, returnErr = ...\<close> assigns the
  variable \<^verbatim>\<open>returnErr\<close> of the function.
\<close>

definition exec_CallExpression ::
  "'h ext \<Rightarrow> 'h evaluator \<Rightarrow> val \<Rightarrow> node option \<Rightarrow> string \<Rightarrow> node list \<Rightarrow> locals \<Rightarrow> 'h vm
     \<Rightarrow> step \<times> 'h vm" where
  "exec_CallExpression E ev context callTarget func astArgs l s =
     (case callTarget of
        None \<Rightarrow> call_target E ev context func astArgs context l s
      | Some t \<Rightarrow>
          (case ev [t] context s of
             (Returned target None, s') \<Rightarrow>
               call_target E ev context func astArgs target (l\<lparr>returnErr := None\<rparr>) s'
           | (Returned target (Some err), s') \<Rightarrow>
               (Exit (Returned GoNil (Some err)) (deferred l), s')
           | (Panic, s') \<Rightarrow> (Exit Panic (deferred l), s')
           | (Diverged, s') \<Rightarrow> (Exit Diverged (deferred l), s')))"

text \<open>
  \<^verbatim>\<open>ast.Assignment\<close>: \<^verbatim>\<open>returnValue, err := ...\<close> declares two new variables in
  the scope of the case, so the \<^verbatim>\<open>returnValue\<close> and \<^verbatim>\<open>returnErr\<close> of the function
  keep their values. The inner switch on the left-hand side binds the value or panics.
\<close>

fun bind_LHS :: "node \<Rightarrow> val \<Rightarrow> 'h vm \<Rightarrow> 'h vm option" where
  "bind_LHS (BareReference name) v s = Some (s\<lparr>ObjectSpace := (ObjectSpace s)(name \<mapsto> v)\<rparr>)"
| "bind_LHS (GlobalVariable name) v s =
     Some (s\<lparr>CurrentGlobals := (CurrentGlobals s)(name \<mapsto> v)\<rparr>)"
| "bind_LHS other v s = None"

definition exec_Assignment ::
  "'h evaluator \<Rightarrow> val \<Rightarrow> node \<Rightarrow> node \<Rightarrow> locals \<Rightarrow> 'h vm \<Rightarrow> step \<times> 'h vm" where
  "exec_Assignment ev context lhs rhs l s =
     (case ev [rhs] context s of
        (Returned v None, s') \<Rightarrow>
          (case bind_LHS lhs v s' of
             Some s'' \<Rightarrow> (Next l, s'')
           | None \<Rightarrow> (Exit Panic (deferred l), s'))
      | (Returned v (Some err), s') \<Rightarrow> (Exit (Returned GoNil (Some err)) (deferred l), s')
      | (Panic, s') \<Rightarrow> (Exit Panic (deferred l), s')
      | (Diverged, s') \<Rightarrow> (Exit Diverged (deferred l), s'))"

text \<open>
  The loop over the rescue clauses of an \<^verbatim>\<open>ast.Begin\<close>. \<open>rubyErr\<close> is the error of
  the body; \<open>err\<close> is the variable \<^verbatim>\<open>err\<close>, which the body of a matching clause
  overwrites. The result is the final \<^verbatim>\<open>err\<close>, or a panic (an element that is not
  an \<^verbatim>\<open>ast.Rescue\<close>, or a panic of a clause body).
\<close>

fun rescue_loop ::
  "'h ext \<Rightarrow> 'h evaluator \<Rightarrow> val \<Rightarrow> error \<Rightarrow> node list \<Rightarrow> error option \<Rightarrow> 'h vm
     \<Rightarrow> (outcome + error option) \<times> 'h vm" where
  "rescue_loop E ev context rubyErr [] err s = (Inr err, s)"
| "rescue_loop E ev context rubyErr (Rescue className body # rest) err s =
     (if className = error_String E rubyErr then
        (case ev body context s of
           (Returned v None, s') \<Rightarrow> (Inr None, s')
         | (Returned v (Some err'), s') \<Rightarrow> rescue_loop E ev context rubyErr rest (Some err') s'
         | (Panic, s') \<Rightarrow> (Inl Panic, s')
         | (Diverged, s') \<Rightarrow> (Inl Diverged, s'))
      else rescue_loop E ev context rubyErr rest err s)"
| "rescue_loop E ev context rubyErr (other # rest) err s = (Inl Panic, s)"

text \<open>
  \<^verbatim>\<open>ast.Begin\<close>: the values of the body and of the clause bodies are dropped
  (\<^verbatim>\<open>_, err := ...\<close>). The type assertion \<^verbatim>\<open>err.(builtins.Value)\<close> panics for an
  error that is not a value. Only a remaining error is assigned to \<^verbatim>\<open>returnErr\<close>.
\<close>

definition exec_Begin ::
  "'h ext \<Rightarrow> 'h evaluator \<Rightarrow> val \<Rightarrow> node list \<Rightarrow> node list \<Rightarrow> locals \<Rightarrow> 'h vm \<Rightarrow> step \<times> 'h vm" where
  "exec_Begin E ev context body rescues l s =
     (case ev body context s of
        (Returned v None, s') \<Rightarrow> (Next l, s')
      | (Returned v (Some err), s') \<Rightarrow>
          (if \<not> is_builtins_Value err then (Exit Panic (deferred l), s')
           else
             (case rescue_loop E ev context err rescues (Some err) s' of
                (Inl out, s'') \<Rightarrow> (Exit out (deferred l), s'')
              | (Inr None, s'') \<Rightarrow> (Next l, s'')
              | (Inr (Some err'), s'') \<Rightarrow> (Next (l\<lparr>returnErr := Some err'\<rparr>), s'')))
      | (Panic, s') \<Rightarrow> (Exit Panic (deferred l), s')
      | (Diverged, s') \<Rightarrow> (Exit Diverged (deferred l), s'))"

text \<open>One iteration of the loop of \<^verbatim>\<open>executeWithContext\<close>: the type switch.\<close>

fun statement ::
  "'h ext \<Rightarrow> 'h evaluator \<Rightarrow> val \<Rightarrow> node \<Rightarrow> locals \<Rightarrow> 'h vm \<Rightarrow> step \<times> 'h vm" where
  "statement E ev context (IfBlock cond body else_body) l s =
     exec_IfBlock ev context cond body else_body l s"
| "statement E ev context (FuncDecl name) l s = exec_FuncDecl E name l s"
| "statement E ev context (SimpleString v) l s = (Next (l\<lparr>returnValue := StringValue v\<rparr>), s)"
| "statement E ev context (InterpolatedString v) l s =
     (Next (l\<lparr>returnValue := StringValue v\<rparr>), s)"
| "statement E ev context (Boolean b) l s =
     (Next (l\<lparr>returnValue := (if b then TrueValue else FalseValue)\<rparr>), s)"
| "statement E ev context (GlobalVariable name) l s =
     (Next (l\<lparr>returnValue := map_index (CurrentGlobals s) name\<rparr>), s)"
| "statement E ev context (ConstantInt i) l s = (Next (l\<lparr>returnValue := IntValue i\<rparr>), s)"
| "statement E ev context (ConstantFloat f) l s = (Next (l\<lparr>returnValue := FloatValue f\<rparr>), s)"
| "statement E ev context (Symbol name) l s = exec_Symbol name l s"
| "statement E ev context (BareReference name) l s = exec_BareReference E context name l s"
| "statement E ev context (CallExpression callTarget func astArgs) l s =
     exec_CallExpression E ev context callTarget func astArgs l s"
| "statement E ev context (Assignment lhs rhs) l s = exec_Assignment ev context lhs rhs l s"
| "statement E ev context FileNameConstReference l s =
     (Next (l\<lparr>returnValue := StringValue (currentFilename s)\<rparr>), s)"
| "statement E ev context (Begin body rescues) l s = exec_Begin E ev context body rescues l s"
| "statement E ev context (Rescue className body) l s = (Exit Panic (deferred l), s)"
| "statement E ev context (OtherNode kind) l s = (Exit Panic (deferred l), s)"

subsection \<open>\<^verbatim>\<open>executeWithContext\<close> and \<^verbatim>\<open>Run\<close>\<close>

text \<open>
  The loop over the statements, with the body of the loop as an argument. At the end
  of the list the function returns \<^verbatim>\<open>returnValue, returnErr\<close>.
\<close>

fun for_statements ::
  "(node \<Rightarrow> locals \<Rightarrow> 'h vm \<Rightarrow> step \<times> 'h vm) \<Rightarrow> node list \<Rightarrow> locals \<Rightarrow> 'h vm
     \<Rightarrow> outcome \<times> nat \<times> 'h vm" where
  "for_statements f [] l s = (Returned (returnValue l) (returnErr l), deferred l, s)"
| "for_statements f (st # rest) l s =
     (case f st l s of
        (Next l', s') \<Rightarrow> for_statements f rest l' s'
      | (Exit out d, s') \<Rightarrow> (out, d, s'))"

text \<open>The deferred calls of \<^verbatim>\<open>vm.stack.Shift()\<close>, run when the function is left.\<close>

definition run_deferred :: "nat \<Rightarrow> 'h vm \<Rightarrow> 'h vm" where
  "run_deferred d s = (Shift ^^ d) s"

definition initial_locals :: locals where
  "initial_locals = \<lparr>returnValue = GoNil, returnErr = None, deferred = 0\<rparr>"

text \<open>
  \<^verbatim>\<open>executeWithContext\<close>. The first argument after the parameters bounds the depth of
  the nested calls of \<^verbatim>\<open>executeWithContext\<close> (through branches, targets, arguments,
  the bodies of \<^verbatim>\<open>begin\<close> and, through \<^verbatim>\<open>require\<close> and \<^verbatim>\<open>Run\<close>, the files
  that are loaded): a file can require itself, so the Go function need not return, and a
  call that needs a greater depth than the bound is \<open>Diverged\<close>.
\<close>

fun executeWithContext ::
  "'h ext \<Rightarrow> nat \<Rightarrow> node list \<Rightarrow> val \<Rightarrow> 'h vm \<Rightarrow> outcome \<times> 'h vm" where
  "executeWithContext E 0 statements context s = (Diverged, s)"
| "executeWithContext E (Suc depth) statements context s =
     (case for_statements (statement E (executeWithContext E depth) context) statements
             initial_locals s of
        (out, d, s') \<Rightarrow> (out, run_deferred d s'))"

definition Run :: "'h ext \<Rightarrow> nat \<Rightarrow> string \<Rightarrow> 'h vm \<Rightarrow> outcome \<times> 'h vm" where
  "Run E depth input s = Run_with E (executeWithContext E depth) input s"

text \<open>
  The state that \<^verbatim>\<open>NewVM\<close> builds, given the heap \<open>h\<close> of the built-in objects it
  creates: the load-path array is \<open>ArrayValue 0\<close>, the array bound to \<^verbatim>\<open>ARGV\<close> is
  \<open>ArrayValue 1\<close>.
\<close>

definition NewVM :: "'h \<Rightarrow> string \<Rightarrow> 'h vm" where
  "NewVM h name =
     \<lparr>currentFilename = name,
      ObjectSpace = [''Object'' \<mapsto> ClassValue ''Object'', ''Kernel'' \<mapsto> ClassValue ''Kernel'',
                     ''File'' \<mapsto> ClassValue ''File'', ''ARGV'' \<mapsto> ArrayValue 1,
                     ''main'' \<mapsto> MainObject],
      CurrentGlobals = [''LOAD_PATH'' \<mapsto> ArrayValue 0, '':'' \<mapsto> ArrayValue 0],
      CurrentSymbols = Map.empty,
      stack = [],
      heap = h,
      allocated = 0,
      trace = []\<rparr>"

subsection \<open>Notions used in the properties\<close>

text \<open>The path that \<^verbatim>\<open>require\<close> tries for a directory of the load path.\<close>

definition unit_path :: "'h ext \<Rightarrow> string \<Rightarrow> string \<Rightarrow> string" where
  "unit_path E dir fileName = Join E dir (fileName @ ''.rb'')"

text \<open>A path that opens and whose contents can be read.\<close>

definition readable :: "'h ext \<Rightarrow> string \<Rightarrow> bool" where
  "readable E path = (os_Open E path \<and> ReadAll E path \<noteq> None)"

text \<open>
  The local variables and the state with which the loop of \<^verbatim>\<open>executeWithContext\<close>
  arrives behind the given statements; \<open>None\<close> when one of them leaves the function.
\<close>

fun loop_prefix ::
  "(node \<Rightarrow> locals \<Rightarrow> 'h vm \<Rightarrow> step \<times> 'h vm) \<Rightarrow> node list \<Rightarrow> locals \<Rightarrow> 'h vm
     \<Rightarrow> (locals \<times> 'h vm) option" where
  "loop_prefix f [] l s = Some (l, s)"
| "loop_prefix f (st # rest) l s =
     (case f st l s of
        (Next l', s') \<Rightarrow> loop_prefix f rest l' s'
      | (Exit out d, s') \<Rightarrow> None)"

text \<open>The address of a symbol object; other values are not compared by identity here.\<close>

fun address :: "val \<Rightarrow> nat option" where
  "address (SymbolValue a name) = Some a"
| "address v = None"

text \<open>
  The table of symbols holds, under each name, a symbol object of that name that has
  been allocated, and no object is held under two names.
\<close>

definition symbols_interned :: "'h vm \<Rightarrow> bool" where
  "symbols_interned s =
     ((\<forall>name v. CurrentSymbols s name = Some v
         \<longrightarrow> (\<exists>a. a < allocated s \<and> v = SymbolValue a name))
      \<and> (\<forall>n1 n2 v1 v2. CurrentSymbols s n1 = Some v1 \<and> CurrentSymbols s n2 = Some v2
            \<and> address v1 = address v2 \<longrightarrow> n1 = n2))"

text \<open>
  What every evaluation leaves as it is: the name of the current unit, the symbols that
  are in the table, and the invariant of the table; the counter of allocated symbols
  does not go down.
\<close>

definition kept :: "'h vm \<Rightarrow> 'h vm \<Rightarrow> bool" where
  "kept s s' =
     (currentFilename s' = currentFilename s
      \<and> allocated s \<le> allocated s'
      \<and> (\<forall>name v. CurrentSymbols s name = Some v \<longrightarrow> CurrentSymbols s' name = Some v)
      \<and> (symbols_interned s \<longrightarrow> symbols_interned s'))"

text \<open>An evaluator that keeps all this and returns with the call stack it was given.\<close>

definition balanced :: "'h evaluator \<Rightarrow> bool" where
  "balanced ev =
     (\<forall>statements context s.
        kept s (snd (ev statements context s))
        \<and> stack (snd (ev statements context s)) = stack s)"

text \<open>The number of deferred pops that are pending behind one iteration of the loop.\<close>

fun pending :: "step \<Rightarrow> nat" where
  "pending (Next l) = deferred l"
| "pending (Exit out d) = d"

text \<open>
  The rescue clauses of a begin node that have been tried, in their order, without one
  of them succeeding: a clause whose class name is not the string form of the error of
  the body is passed over; the body of a clause whose class name is that string is
  evaluated and fails, and its error is the one held from then on. The result is the
  error held and the state behind the clauses; \<open>None\<close> when the body of a clause
  succeeds, panics or does not return, or an element is not a rescue clause.
\<close>

fun clauses_tried ::
  "'h ext \<Rightarrow> 'h evaluator \<Rightarrow> val \<Rightarrow> error \<Rightarrow> node list \<Rightarrow> error \<Rightarrow> 'h vm
     \<Rightarrow> (error \<times> 'h vm) option" where
  "clauses_tried E ev context rubyErr [] err s = Some (err, s)"
| "clauses_tried E ev context rubyErr (Rescue className body # rest) err s =
     (if className \<noteq> error_String E rubyErr then clauses_tried E ev context rubyErr rest err s
      else
        (case ev body context s of
           (Returned v (Some err'), s') \<Rightarrow> clauses_tried E ev context rubyErr rest err' s'
         | (Returned v None, s') \<Rightarrow> None
         | (Panic, s') \<Rightarrow> None
         | (Diverged, s') \<Rightarrow> None))"
| "clauses_tried E ev context rubyErr (other # rest) err s = None"

subsection \<open>A small environment\<close>

text \<open>
  A concrete choice of the parameters, for running the model: a file system with
  \<^verbatim>\<open>/a/foo.rb\<close>, which opens and cannot be read (a directory), \<^verbatim>\<open>/b/foo.rb\<close>,
  which holds one assignment, and \<^verbatim>\<open>/b/bad.rb\<close>, which holds an undefined name; a parser that knows three texts; a heap that is just the
  list of the members of the load path; the three methods of \<^verbatim>\<open>main\<close> and a
  built-in \<^verbatim>\<open>raise\<close> whose error has the given message as its string form.
\<close>

definition demo_parse :: "string \<Rightarrow> node list option" where
  "demo_parse input =
     (if input = ''x = __FILE__'' then Some [Assignment (BareReference ''x'') FileNameConstReference]
      else if input = ''puts; zzz'' then Some [CallExpression None ''puts'' [], BareReference ''zzz'']
      else if input = ''zzz'' then Some [BareReference ''zzz'']
      else None)"

definition demo_Method :: "val list \<Rightarrow> val \<Rightarrow> string \<Rightarrow> go_method option" where
  "demo_Method h v name =
     (if v \<noteq> MainObject then None
      else if name = ''to_s'' then Some MainToS
      else if name = ''require'' then Some MainRequire
      else if name = ''puts'' then Some MainPuts
      else if name = ''raise'' then Some (BuiltinMethod ''raise'' 0)
      else None)"

fun demo_Execute :: "string \<Rightarrow> nat \<Rightarrow> val list \<Rightarrow> val list \<Rightarrow> outcome \<times> val list" where
  "demo_Execute name k [StringValue message] h = (Returned GoNil (Some (RaisedError message)), h)"
| "demo_Execute name k args h = (Returned GoNil None, h)"

fun demo_value_String :: "val list \<Rightarrow> val \<Rightarrow> string" where
  "demo_value_String h (StringValue str) = str"
| "demo_value_String h MainObject = ''main''"
| "demo_value_String h v = []"

fun demo_error_String :: "error \<Rightarrow> string" where
  "demo_error_String (RaisedError message) = message"
| "demo_error_String (NameError name str cls backtrace) = ''NameError''"
| "demo_error_String (NoMethodError name str cls backtrace) = ''NoMethodError''"
| "demo_error_String (LoadError message backtrace) = ''LoadError''"
| "demo_error_String (ParseError filename) = []"

definition demo :: "val list ext" where
  "demo =
     \<lparr>RubyParse = demo_parse,
      os_Open = (\<lambda>path. path = ''/a/foo.rb'' \<or> path = ''/b/foo.rb'' \<or> path = ''/b/bad.rb''),
      ReadAll = (\<lambda>path. if path = ''/b/foo.rb'' then Some ''x = __FILE__''
                        else if path = ''/b/bad.rb'' then Some ''zzz''
                        else None),
      Join = (\<lambda>dir file. dir @ ''/'' @ file),
      Members = (\<lambda>h. h),
      Method = demo_Method,
      Execute = demo_Execute,
      AddPrivateMethod = (\<lambda>v m h. h),
      value_String = demo_value_String,
      class_String = (\<lambda>h v. ''Object''),
      error_String = demo_error_String\<rparr>"

text \<open>The same environment with a parser that rejects every text.\<close>

definition demo_broken :: "val list ext" where
  "demo_broken = demo\<lparr>RubyParse := (\<lambda>input. None)\<rparr>"

section \<open>Properties of the evaluator\<close>

subsection \<open>Basic facts\<close>

lemma run_deferred_0: "run_deferred 0 s = s"
  by (simp add: run_deferred_def)

lemma Shift_Unshift: "Shift (Unshift label s) = s"
  by (simp add: Shift_def Unshift_def)

lemma require_not_string:
  "\<forall>str. a \<noteq> StringValue str \<Longrightarrow> require E ev (a # args) s = (Panic, s)"
  by (cases a) simp_all

subsection \<open>Conditionals\<close>

text \<open>
  C1. The condition of an if/else node that is the bare reference \<^verbatim>\<open>nil\<close> makes the
  evaluator take the then branch, and a bare reference with any other name (here
  \<^verbatim>\<open>x\<close>) makes it take the else branch: the test \<^verbatim>\<open>Name == "nil"\<close> is assigned to
  \<^verbatim>\<open>truthy\<close> as it is, so \<^verbatim>\<open>nil\<close> is not falsy and the other bare references
  are not truthy.
\<close>

theorem if_bare_nil_takes_then_branch:
  "executeWithContext E (Suc (Suc depth))
     [IfBlock (BareReference ''nil'') [SimpleString ''then''] [SimpleString ''else'']] context s
     = (Returned (StringValue ''then'') None, s)
   \<and> executeWithContext E (Suc (Suc depth))
     [IfBlock (BareReference ''x'') [SimpleString ''then''] [SimpleString ''else'']] context s
     = (Returned (StringValue ''else'') None, s)"
  by (simp add: exec_IfBlock_def initial_locals_def run_deferred_0)

subsection \<open>References\<close>




subsection \<open>The method \<^verbatim>\<open>require\<close>\<close>

text \<open>
  C8. \<^verbatim>\<open>require\<close> of the unit \<^verbatim>\<open>rubygems\<close> returns the false value and no error,
  whatever the load path and the file system are; the state is the one before the call,
  so nothing was opened.
\<close>

theorem require_rubygems_no_search:
  "require E ev (StringValue ''rubygems'' # args) s = (Returned FalseValue None, s)
   \<and> method_Execute E ev MainRequire (StringValue ''rubygems'' # args) s
       = (Returned FalseValue None, s)
   \<and> trace (snd (method_Execute E ev MainRequire (StringValue ''rubygems'' # args) s)) = trace s"
  by simp

text \<open>
  C10. \<^verbatim>\<open>require\<close> called with no argument, or with a first argument that is not a
  string value, panics; no error value is returned. A call expression \<^verbatim>\<open>require\<close>
  without arguments, resolved to that method, panics as a whole.
\<close>

theorem require_bad_arguments_panic:
  "(args = [] \<or> (\<forall>str. hd args \<noteq> StringValue str)
      \<longrightarrow> method_Execute E ev MainRequire args s = (Panic, s))
   \<and> (Method E (heap s) context ''require'' = Some MainRequire \<and> context \<noteq> GoNil
      \<longrightarrow> executeWithContext E (Suc depth) [CallExpression None ''require'' []] context s
           = (Panic, s))"
proof (intro conjI impI)
  assume bad: "args = [] \<or> (\<forall>str. hd args \<noteq> StringValue str)"
  show "method_Execute E ev MainRequire args s = (Panic, s)"
  proof (cases args)
    case Nil
    then show ?thesis by simp
  next
    case (Cons a rest)
    with bad have "\<forall>str. a \<noteq> StringValue str" by simp
    then show ?thesis using Cons by (simp add: require_not_string)
  qed
next
  assume "Method E (heap s) context ''require'' = Some MainRequire \<and> context \<noteq> GoNil"
  then show "executeWithContext E (Suc depth) [CallExpression None ''require'' []] context s
               = (Panic, s)"
    by (simp add: exec_CallExpression_def call_target_def initial_locals_def
          run_deferred_def Shift_def Unshift_def)
qed

theorem require_bad_arguments_panic_witness:
  "method_Execute demo (executeWithContext demo 1) MainRequire [] (NewVM [] ''irb'')
     = (Panic, NewVM [] ''irb'')
   \<and> method_Execute demo (executeWithContext demo 1) MainRequire [IntValue 5] (NewVM [] ''irb'')
     = (Panic, NewVM [] ''irb'')
   \<and> executeWithContext demo 1 [CallExpression None ''require'' []] MainObject (NewVM [] ''irb'')
     = (Panic, NewVM [] ''irb'')"
  using require_bad_arguments_panic
      [of "[]" demo "executeWithContext demo 1" "NewVM [] ''irb''" MainObject 0]
    require_bad_arguments_panic
      [of "[IntValue 5]" demo "executeWithContext demo 1" "NewVM [] ''irb''" MainObject 0]
  by (simp add: demo_def demo_Method_def NewVM_def)

subsection \<open>Begin and rescue\<close>

lemma rescue_loop_tried:
  "clauses_tried E ev context e earlier err s = Some (err', s')
     \<Longrightarrow> rescue_loop E ev context e (earlier @ rest) (Some err) s
         = rescue_loop E ev context e rest (Some err') s'"
proof (induction earlier arbitrary: err s)
  case Nil
  then show ?case by simp
next
  case (Cons c earlier)
  from Cons.prems obtain className body where c: "c = Rescue className body"
    by (cases c) simp_all
  show ?case
  proof (cases "className = error_String E e")
    case False
    with Cons c show ?thesis by simp
  next
    case True
    obtain out s1 where b: "ev body context s = (out, s1)" by fastforce
    with Cons.prems c True obtain v err1 where out: "out = Returned v (Some err1)"
      and rest: "clauses_tried E ev context e earlier err1 s1 = Some (err', s')"
      by (auto split: outcome.splits option.splits)
    from Cons.IH [OF rest] c True b out show ?thesis by simp
  qed
qed

lemma clauses_tried_no_match:
  "\<forall>c\<in>set rescues. \<exists>n b. c = Rescue n b \<and> n \<noteq> error_String E e
     \<Longrightarrow> clauses_tried E ev context e rescues err s = Some (err, s)"
  by (induction rescues) auto

text \<open>
  C2, as the code has it. Let the body of a begin node fail with an error that is a
  value. The rescue clauses are tried in their order: a clause whose class name is the
  string form of that error has its body evaluated, also behind a clause of that name
  whose body has failed. When the body of such a clause succeeds, the clauses behind it
  are not tried and no error is assigned. When no clause has succeeded, the error held
  at the end (the error of the body when no clause matches, else the error of the last
  clause body that failed) is assigned to \<^verbatim>\<open>returnErr\<close>. In every case the begin node
  leaves \<^verbatim>\<open>returnValue\<close> as it was: the value of the rescue body is dropped, and a
  sequence of the begin node alone returns \<^verbatim>\<open>nil\<close> as its value.
\<close>

theorem begin_rescue_keeps_value:
  assumes body: "executeWithContext E depth body context s = (Returned v (Some e), s1)"
    and is_value: "is_builtins_Value e"
  shows "(clauses_tried E (executeWithContext E depth) context e earlier e s1 = Some (err, s2)
          \<and> executeWithContext E depth rescueBody context s2 = (Returned v' None, s3)
          \<longrightarrow> statement E (executeWithContext E depth) context
                 (Begin body (earlier @ Rescue (error_String E e) rescueBody # later)) l s
                = (Next l, s3)
              \<and> executeWithContext E (Suc depth)
                  [Begin body (earlier @ Rescue (error_String E e) rescueBody # later)] context s
                = (Returned GoNil None, s3))
       \<and> (executeWithContext E depth failing context s1 = (Returned w (Some e1), s2)
          \<and> executeWithContext E depth rescueBody context s2 = (Returned v' None, s3)
          \<longrightarrow> executeWithContext E (Suc depth)
                  [Begin body (Rescue (error_String E e) failing
                                 # Rescue (error_String E e) rescueBody # later)] context s
                = (Returned GoNil None, s3))
       \<and> (clauses_tried E (executeWithContext E depth) context e rescues e s1 = Some (err, s2)
          \<longrightarrow> statement E (executeWithContext E depth) context (Begin body rescues) l s
                = (Next (l\<lparr>returnErr := Some err\<rparr>), s2)
              \<and> executeWithContext E (Suc depth) [Begin body rescues] context s
                = (Returned GoNil (Some err), s2))
       \<and> ((\<forall>c\<in>set rescues. \<exists>n b. c = Rescue n b \<and> n \<noteq> error_String E e)
          \<longrightarrow> statement E (executeWithContext E depth) context (Begin body rescues) l s
                = (Next (l\<lparr>returnErr := Some e\<rparr>), s1)
              \<and> executeWithContext E (Suc depth) [Begin body rescues] context s
                = (Returned GoNil (Some e), s1))"
proof -
  let ?ev = "executeWithContext E depth"
  have rescued: "statement E ?ev context
                   (Begin body (cs @ Rescue (error_String E e) rb # later)) l s = (Next l, t')
      \<and> executeWithContext E (Suc depth)
           [Begin body (cs @ Rescue (error_String E e) rb # later)] context s
         = (Returned GoNil None, t')"
    if tried: "clauses_tried E ?ev context e cs e s1 = Some (held, t)"
      and ok: "?ev rb context t = (Returned x None, t')" for cs held t rb x t'
  proof -
    have loop: "rescue_loop E ?ev context e (cs @ Rescue (error_String E e) rb # later)
                  (Some e) s1 = (Inr None, t')"
      using rescue_loop_tried [OF tried] ok by simp
    show ?thesis
      using body is_value loop
      by (simp add: exec_Begin_def initial_locals_def run_deferred_0)
  qed
  have failed: "statement E ?ev context (Begin body cs) l s
                  = (Next (l\<lparr>returnErr := Some held\<rparr>), t)
      \<and> executeWithContext E (Suc depth) [Begin body cs] context s
         = (Returned GoNil (Some held), t)"
    if tried: "clauses_tried E ?ev context e cs e s1 = Some (held, t)" for cs held t
  proof -
    have loop: "rescue_loop E ?ev context e cs (Some e) s1 = (Inr (Some held), t)"
      using rescue_loop_tried [OF tried, of "[]"] by simp
    show ?thesis
      using body is_value loop
      by (simp add: exec_Begin_def initial_locals_def run_deferred_0)
  qed
  show ?thesis
  proof (intro conjI impI)
    assume h: "clauses_tried E ?ev context e earlier e s1 = Some (err, s2)
          \<and> ?ev rescueBody context s2 = (Returned v' None, s3)"
    from rescued [of earlier err s2 rescueBody v' s3] h
    show "statement E ?ev context
            (Begin body (earlier @ Rescue (error_String E e) rescueBody # later)) l s
          = (Next l, s3)"
      and "executeWithContext E (Suc depth)
             [Begin body (earlier @ Rescue (error_String E e) rescueBody # later)] context s
           = (Returned GoNil None, s3)"
      by simp_all
  next
    assume h: "?ev failing context s1 = (Returned w (Some e1), s2)
          \<and> ?ev rescueBody context s2 = (Returned v' None, s3)"
    then have "clauses_tried E ?ev context e [Rescue (error_String E e) failing] e s1
               = Some (e1, s2)"
      by simp
    from rescued [OF this, of rescueBody v' s3] h
    show "executeWithContext E (Suc depth)
            [Begin body (Rescue (error_String E e) failing
                           # Rescue (error_String E e) rescueBody # later)] context s
          = (Returned GoNil None, s3)"
      by simp
  next
    assume h: "clauses_tried E ?ev context e rescues e s1 = Some (err, s2)"
    from failed [OF h]
    show "statement E ?ev context (Begin body rescues) l s
          = (Next (l\<lparr>returnErr := Some err\<rparr>), s2)"
      and "executeWithContext E (Suc depth) [Begin body rescues] context s
           = (Returned GoNil (Some err), s2)"
      by simp_all
  next
    assume h: "\<forall>c\<in>set rescues. \<exists>n b. c = Rescue n b \<and> n \<noteq> error_String E e"
    from failed [OF clauses_tried_no_match [OF h]]
    show "statement E ?ev context (Begin body rescues) l s
          = (Next (l\<lparr>returnErr := Some e\<rparr>), s1)"
      and "executeWithContext E (Suc depth) [Begin body rescues] context s
           = (Returned GoNil (Some e), s1)"
      by simp_all
  qed
qed

lemma demo_raise_Boom:
  "executeWithContext demo 2 [CallExpression None ''raise'' [SimpleString ''Boom'']] MainObject
     (NewVM [] ''irb'')
   = (Returned GoNil (Some (RaisedError ''Boom'')), NewVM [] ''irb'')"
  by (simp add: numeral_2_eq_2 exec_CallExpression_def call_target_def initial_locals_def
        run_deferred_def Shift_def Unshift_def demo_def demo_Method_def NewVM_def)

lemma demo_rescued:
  "executeWithContext demo 2 [SimpleString ''rescued''] MainObject (NewVM [] ''irb'')
   = (Returned (StringValue ''rescued'') None, NewVM [] ''irb'')"
  by (simp add: numeral_2_eq_2 initial_locals_def run_deferred_0)

lemma demo_zzz:
  "executeWithContext demo 2 [BareReference ''zzz''] MainObject (NewVM [] ''irb'')
   = (Returned GoNil (Some (NameError ''zzz'' ''main'' ''Object'' [])), NewVM [] ''irb'')"
  by (simp add: numeral_2_eq_2 exec_BareReference_def initial_locals_def run_deferred_0
        demo_def NewVM_def)

theorem begin_rescue_keeps_value_witness:
  "executeWithContext demo (Suc 2)
     [Begin [CallExpression None ''raise'' [SimpleString ''Boom'']]
        ([Rescue ''Other'' [OtherNode ''x''], Rescue ''Boom'' [BareReference ''zzz'']]
           @ Rescue ''Boom'' [SimpleString ''rescued''] # [Rescue ''Boom'' [OtherNode ''y'']])]
     MainObject (NewVM [] ''irb'')
   = (Returned GoNil None, NewVM [] ''irb'')
   \<and> executeWithContext demo (Suc 2)
     [Begin [CallExpression None ''raise'' [SimpleString ''Boom'']]
        (Rescue ''Boom'' [BareReference ''zzz''] # Rescue ''Boom'' [SimpleString ''rescued'']
           # [Rescue ''Boom'' [OtherNode ''y'']])]
     MainObject (NewVM [] ''irb'')
   = (Returned GoNil None, NewVM [] ''irb'')
   \<and> executeWithContext demo (Suc 2)
     [Begin [CallExpression None ''raise'' [SimpleString ''Boom'']]
        [Rescue ''Other'' [OtherNode ''x''], Rescue ''Boom'' [BareReference ''zzz'']]]
     MainObject (NewVM [] ''irb'')
   = (Returned GoNil (Some (NameError ''zzz'' ''main'' ''Object'' [])), NewVM [] ''irb'')
   \<and> executeWithContext demo (Suc 2)
     [Begin [CallExpression None ''raise'' [SimpleString ''Boom'']]
        [Rescue ''Other'' [OtherNode ''x'']]]
     MainObject (NewVM [] ''irb'')
   = (Returned GoNil (Some (RaisedError ''Boom'')), NewVM [] ''irb'')"
proof -
  let ?s = "NewVM [] ''irb'' :: val list vm"
  let ?zzz = "NameError ''zzz'' ''main'' ''Object'' []"
  have str: "error_String demo (RaisedError ''Boom'') = ''Boom''"
    by (simp add: demo_def)
  have val: "is_builtins_Value (RaisedError ''Boom'')"
    by simp
  have tried: "clauses_tried demo (executeWithContext demo 2) MainObject (RaisedError ''Boom'')
                 [Rescue ''Other'' [OtherNode ''x''], Rescue ''Boom'' [BareReference ''zzz'']]
                 (RaisedError ''Boom'') ?s
               = Some (?zzz, ?s)"
    using demo_zzz by (simp add: str del: executeWithContext.simps)
  have no_match: "\<forall>c\<in>set [Rescue ''Other'' [OtherNode ''x'']].
                    \<exists>n b. c = Rescue n b \<and> n \<noteq> ''Boom''"
    by simp
  note inst = begin_rescue_keeps_value [OF demo_raise_Boom val,
      of "[Rescue ''Other'' [OtherNode ''x''], Rescue ''Boom'' [BareReference ''zzz'']]"
         ?zzz ?s "[SimpleString ''rescued'']" "StringValue ''rescued''" ?s
         "[Rescue ''Boom'' [OtherNode ''y'']]" initial_locals
         "[BareReference ''zzz'']" GoNil ?zzz
         "[Rescue ''Other'' [OtherNode ''x''], Rescue ''Boom'' [BareReference ''zzz'']]",
      unfolded str]
  note inst2 = begin_rescue_keeps_value [OF demo_raise_Boom val,
      of "[]" "RaisedError ''Boom''" ?s "[SimpleString ''rescued'']" "StringValue ''rescued''" ?s
         "[]" initial_locals "[]" GoNil ?zzz "[Rescue ''Other'' [OtherNode ''x'']]",
      unfolded str]
  from inst tried demo_rescued demo_zzz inst2 no_match show ?thesis
    by blast
qed

text \<open>
  C2 as stated fails. The rescue body evaluates to the string \<^verbatim>\<open>rescued\<close>, and the
  begin node that rescues the error \<^verbatim>\<open>Boom\<close> with it returns \<^verbatim>\<open>nil\<close>. And a body
  that fails with an error that is not a value makes the begin node panic: with a
  parser that rejects the file, \<^verbatim>\<open>require\<close> returns the parse error of \<^verbatim>\<open>Run\<close>.
\<close>

theorem begin_rescue_value_counterexample:
  "fst (executeWithContext demo 3
          [Begin [CallExpression None ''raise'' [SimpleString ''Boom'']]
             [Rescue ''Boom'' [SimpleString ''rescued'']]]
          MainObject (NewVM [] ''irb''))
     = Returned GoNil None
   \<and> fst (executeWithContext demo 2 [SimpleString ''rescued''] MainObject (NewVM [] ''irb''))
     = Returned (StringValue ''rescued'') None
   \<and> fst (executeWithContext demo_broken 2
            [CallExpression None ''require'' [SimpleString ''foo'']]
            MainObject (NewVM [StringValue ''/a'', StringValue ''/b''] ''irb''))
     = Returned TrueValue (Some (ParseError ''/b/foo.rb''))
   \<and> fst (executeWithContext demo_broken 3
            [Begin [CallExpression None ''require'' [SimpleString ''foo'']]
               [Rescue ''ParseError'' [SimpleString ''rescued'']]]
            MainObject (NewVM [StringValue ''/a'', StringValue ''/b''] ''irb''))
     = Panic"
  by (simp add: numeral_3_eq_3 numeral_2_eq_2 exec_Begin_def exec_CallExpression_def call_target_def
        initial_locals_def run_deferred_def Shift_def Unshift_def demo_def demo_broken_def
        demo_Method_def load_file_def Run_with_def NewVM_def Let_def)

subsection \<open>The search of \<^verbatim>\<open>require\<close>\<close>

lemma search_load_path_skip:
  "\<forall>d\<in>set skipped. \<not> readable E (unit_path E d fileName)
     \<Longrightarrow> search_load_path E ev fileName (map StringValue skipped @ rest) s
         = search_load_path E ev fileName rest
             (s\<lparr>trace := trace s @ map (\<lambda>d. OsOpen (unit_path E d fileName)) skipped\<rparr>)"
proof (induction skipped arbitrary: s)
  case Nil
  then show ?case by simp
next
  case (Cons d skipped)
  then show ?case
    by (auto simp: readable_def unit_path_def Let_def)
qed

text \<open>
  C3, as the code has it. For a unit name other than \<^verbatim>\<open>rubygems\<close> and a load path of
  strings, \<^verbatim>\<open>require\<close> opens the paths in the order of the list and stops at the first
  one that opens and whose contents can be read: that file is loaded, and the
  directories behind it are not tried. A path that does not open, or that opens and
  cannot be read, is passed over. When no directory has a file that opens and can be
  read, every path has been tried and the result is a LoadError whose message names the
  unit.
\<close>

theorem require_first_readable_file:
  assumes "fileName \<noteq> ''rubygems''"
  shows "(Members E (heap s) = map StringValue skipped @ StringValue dir # later
          \<and> (\<forall>d\<in>set skipped. \<not> readable E (unit_path E d fileName))
          \<and> os_Open E (unit_path E dir fileName)
          \<and> ReadAll E (unit_path E dir fileName) = Some contents
          \<longrightarrow> require E ev (StringValue fileName # args) s
                = load_file E ev (unit_path E dir fileName) contents
                    (s\<lparr>trace := trace s
                          @ map (\<lambda>d. OsOpen (unit_path E d fileName)) (skipped @ [dir])\<rparr>))
       \<and> (Members E (heap s) = map StringValue dirs
          \<and> (\<forall>d\<in>set dirs. \<not> readable E (unit_path E d fileName))
          \<longrightarrow> require E ev (StringValue fileName # args) s
                = (Returned GoNil
                     (Some (LoadError (''LoadError: cannot load such file -- '' @ fileName)
                              (stack s))),
                   s\<lparr>trace := trace s @ map (\<lambda>d. OsOpen (unit_path E d fileName)) dirs\<rparr>))"
proof (intro conjI impI)
  assume h: "Members E (heap s) = map StringValue skipped @ StringValue dir # later
          \<and> (\<forall>d\<in>set skipped. \<not> readable E (unit_path E d fileName))
          \<and> os_Open E (unit_path E dir fileName)
          \<and> ReadAll E (unit_path E dir fileName) = Some contents"
  then have skip: "\<forall>d\<in>set skipped. \<not> readable E (unit_path E d fileName)"
    by simp
  have "require E ev (StringValue fileName # args) s
        = search_load_path E ev fileName (StringValue dir # later)
            (s\<lparr>trace := trace s @ map (\<lambda>d. OsOpen (unit_path E d fileName)) skipped\<rparr>)"
    using assms h search_load_path_skip [OF skip] by simp
  also have "\<dots> = load_file E ev (unit_path E dir fileName) contents
                    (s\<lparr>trace := trace s
                          @ map (\<lambda>d. OsOpen (unit_path E d fileName)) (skipped @ [dir])\<rparr>)"
    using h by (simp add: unit_path_def Let_def)
  finally show "require E ev (StringValue fileName # args) s
                = load_file E ev (unit_path E dir fileName) contents
                    (s\<lparr>trace := trace s
                          @ map (\<lambda>d. OsOpen (unit_path E d fileName)) (skipped @ [dir])\<rparr>)" .
next
  assume h: "Members E (heap s) = map StringValue dirs
          \<and> (\<forall>d\<in>set dirs. \<not> readable E (unit_path E d fileName))"
  then have skip: "\<forall>d\<in>set dirs. \<not> readable E (unit_path E d fileName)"
    by simp
  show "require E ev (StringValue fileName # args) s
                = (Returned GoNil
                     (Some (LoadError (''LoadError: cannot load such file -- '' @ fileName)
                              (stack s))),
                   s\<lparr>trace := trace s @ map (\<lambda>d. OsOpen (unit_path E d fileName)) dirs\<rparr>)"
    using assms h search_load_path_skip [OF skip, of ev "[]" s] by simp
qed

lemma demo_load_foo:
  "load_file demo (executeWithContext demo 2) ''/b/foo.rb'' ''x = __FILE__''
     ((NewVM [StringValue ''/a'', StringValue ''/b''] ''irb'')
        \<lparr>trace := [OsOpen ''/a/foo.rb'', OsOpen ''/b/foo.rb'']\<rparr>)
   = (Returned TrueValue None,
      (NewVM [StringValue ''/a'', StringValue ''/b''] ''irb'')
        \<lparr>trace := [OsOpen ''/a/foo.rb'', OsOpen ''/b/foo.rb''],
          ObjectSpace := (ObjectSpace (NewVM [StringValue ''/a'', StringValue ''/b''] ''irb''))
                           (''x'' \<mapsto> StringValue ''/b/foo.rb'')\<rparr>)"
  by (simp add: load_file_def Run_with_def demo_def demo_parse_def numeral_2_eq_2
        exec_Assignment_def initial_locals_def run_deferred_0 Shift_def Unshift_def
        NewVM_def map_index_def)

theorem require_first_readable_file_witness:
  "require demo (executeWithContext demo 2) [StringValue ''foo'']
     (NewVM [StringValue ''/a'', StringValue ''/b''] ''irb'')
   = (Returned TrueValue None,
      (NewVM [StringValue ''/a'', StringValue ''/b''] ''irb'')
        \<lparr>trace := [OsOpen ''/a/foo.rb'', OsOpen ''/b/foo.rb''],
          ObjectSpace := (ObjectSpace (NewVM [StringValue ''/a'', StringValue ''/b''] ''irb''))
                           (''x'' \<mapsto> StringValue ''/b/foo.rb'')\<rparr>)
   \<and> require demo (executeWithContext demo 2) [StringValue ''bar'']
     (NewVM [StringValue ''/a'', StringValue ''/b''] ''irb'')
   = (Returned GoNil (Some (LoadError ''LoadError: cannot load such file -- bar'' [])),
      (NewVM [StringValue ''/a'', StringValue ''/b''] ''irb'')
        \<lparr>trace := [OsOpen ''/a/bar.rb'', OsOpen ''/b/bar.rb'']\<rparr>)"
proof -
  let ?s = "NewVM [StringValue ''/a'', StringValue ''/b''] ''irb''"
  have found: "require demo (executeWithContext demo 2) [StringValue ''foo''] ?s
        = load_file demo (executeWithContext demo 2) (unit_path demo ''/b'' ''foo'')
            ''x = __FILE__''
            (?s\<lparr>trace := trace ?s
                  @ map (\<lambda>d. OsOpen (unit_path demo d ''foo'')) ([''/a''] @ [''/b''])\<rparr>)"
    using require_first_readable_file [of "''foo''" demo ?s "[''/a'']" "''/b''" "[]"
        "''x = __FILE__''" "executeWithContext demo 2" "[]" "[]"]
    by (simp add: demo_def NewVM_def readable_def unit_path_def)
  have missing: "require demo (executeWithContext demo 2) [StringValue ''bar''] ?s
        = (Returned GoNil
             (Some (LoadError (''LoadError: cannot load such file -- '' @ ''bar'') (stack ?s))),
           ?s\<lparr>trace := trace ?s
                 @ map (\<lambda>d. OsOpen (unit_path demo d ''bar'')) [''/a'', ''/b'']\<rparr>)"
    using require_first_readable_file [of "''bar''" demo ?s "[]" "''/a''" "[]"
        "''''" "executeWithContext demo 2" "[]" "[''/a'', ''/b'']"]
    by (simp add: demo_def NewVM_def readable_def unit_path_def)
  have paths: "unit_path demo ''/a'' ''foo'' = ''/a/foo.rb''"
    "unit_path demo ''/b'' ''foo'' = ''/b/foo.rb''"
    "unit_path demo ''/a'' ''bar'' = ''/a/bar.rb''"
    "unit_path demo ''/b'' ''bar'' = ''/b/bar.rb''"
    by (simp_all add: unit_path_def demo_def)
  have t0: "trace ?s = []" "stack ?s = []"
    by (simp_all add: NewVM_def)
  show ?thesis
    using found missing demo_load_foo by (simp add: paths t0)
qed

text \<open>
  C3 as stated fails: \<^verbatim>\<open>/a/foo.rb\<close> opens and cannot be read, and the search goes on
  to \<^verbatim>\<open>/b/foo.rb\<close>, which is loaded.
\<close>

theorem require_later_directory_counterexample:
  "os_Open demo ''/a/foo.rb''
   \<and> trace (snd (require demo (executeWithContext demo 2) [StringValue ''foo'']
                  (NewVM [StringValue ''/a'', StringValue ''/b''] ''irb'')))
     = [OsOpen ''/a/foo.rb'', OsOpen ''/b/foo.rb'']
   \<and> fst (require demo (executeWithContext demo 2) [StringValue ''foo'']
             (NewVM [StringValue ''/a'', StringValue ''/b''] ''irb''))
     = Returned TrueValue None"
  by (simp add: load_file_def Run_with_def demo_def demo_parse_def numeral_2_eq_2
        exec_Assignment_def initial_locals_def run_deferred_0 Shift_def Unshift_def
        NewVM_def map_index_def Let_def)


subsection \<open>Errors in a sequence of statements\<close>

lemma for_statements_single:
  "for_statements f [st] l s =
     (case f st l s of
        (Next l', s') \<Rightarrow> (Returned (returnValue l') (returnErr l'), deferred l', s')
      | (Exit out d, s') \<Rightarrow> (out, d, s'))"
  by (simp split: prod.splits step.splits)







subsection \<open>Frames of the call stack\<close>

text \<open>
  C4. The frame that a call expression pushes is not popped when the method returns:
  in the run of \<^verbatim>\<open>puts\<close> followed by an undefined name, the backtrace of the
  NameError still has the frame \<^verbatim>\<open>puts\<close> above \<^verbatim>\<open>main\<close>. The deferred pop runs
  when \<^verbatim>\<open>executeWithContext\<close> returns; after the run the stack is empty again.
\<close>

theorem puts_frame_outlives_call:
  "Run demo 2 ''puts; zzz'' (NewVM [] ''irb'')
   = (Returned GoNil (Some (NameError ''zzz'' ''main'' ''Object'' [''puts'', ''main''])),
      NewVM [] ''irb'')"
  by (simp add: Run_def Run_with_def numeral_2_eq_2 demo_def demo_parse_def demo_Method_def
        exec_CallExpression_def call_target_def exec_BareReference_def initial_locals_def
        run_deferred_def Shift_def Unshift_def NewVM_def map_index_def Let_def)

subsection \<open>What an evaluation keeps\<close>

text \<open>
  Every call of \<^verbatim>\<open>executeWithContext\<close>, to whatever result, returns with the unit
  name and the call stack it was given, keeps the symbols that are in the table and
  the invariant of the table. The proof follows the code: each case of the type switch
  keeps these, given that the nested evaluations do, and the dependency is closed by
  induction on the depth.
\<close>

lemma kept_refl: "kept s s"
  by (simp add: kept_def)

lemma kept_trans: "kept s s1 \<Longrightarrow> kept s1 s2 \<Longrightarrow> kept s s2"
  by (simp add: kept_def)

lemma kept_other_fields:
  "kept s (s\<lparr>trace := tr\<rparr>)"
  "kept s (s\<lparr>heap := h\<rparr>)"
  "kept s (s\<lparr>stack := st\<rparr>)"
  "kept s (s\<lparr>ObjectSpace := os\<rparr>)"
  "kept s (s\<lparr>CurrentGlobals := gl\<rparr>)"
  by (simp_all add: kept_def symbols_interned_def)

lemma kept_Unshift: "kept s (Unshift label s)"
  by (simp add: Unshift_def kept_other_fields)

lemma kept_Shift: "kept s (Shift s)"
  by (simp add: Shift_def kept_other_fields)

lemma balancedD:
  "balanced ev \<Longrightarrow> ev statements context s = (out, s') \<Longrightarrow> kept s s' \<and> stack s' = stack s"
  unfolding balanced_def by (metis snd_conv)

lemma run_deferred_stack: "run_deferred d s = s\<lparr>stack := drop d (stack s)\<rparr>"
proof (induction d)
  case 0
  then show ?case by (simp add: run_deferred_def)
next
  case (Suc d)
  then show ?case
    by (simp add: run_deferred_def Shift_def drop_Suc tl_drop)
qed

lemma exec_Symbol_kept:
  assumes "exec_Symbol name l s = (r, s')"
  shows "kept s s' \<and> stack s' = stack s \<and> pending r = deferred l"
proof (cases "CurrentSymbols s name")
  case None
  have "symbols_interned s \<Longrightarrow>
        symbols_interned (s\<lparr>allocated := Suc (allocated s),
           CurrentSymbols := (CurrentSymbols s)(name \<mapsto> SymbolValue (allocated s) name)\<rparr>)"
    using None unfolding symbols_interned_def
    by (auto simp: less_Suc_eq split: if_splits) (metis address.simps(1) nat_neq_iff option.inject)+
  then show ?thesis
    using assms None by (auto simp: exec_Symbol_def Let_def kept_def)
next
  case (Some v)
  then show ?thesis
    using assms by (auto simp: exec_Symbol_def kept_refl)
qed


lemma puts_kept: "puts E args s = (out, s') \<Longrightarrow> kept s s' \<and> stack s' = stack s"
proof (induction args arbitrary: s)
  case Nil
  then show ?case by (auto simp: kept_refl)
next
  case (Cons a args)
  show ?case
  proof (cases "a = GoNil")
    case True
    with Cons.prems show ?thesis by (auto simp: kept_refl)
  next
    case False
    let ?s1 = "s\<lparr>trace := trace s @ [StdoutWrite (value_String E (heap s) a @ [CHR 0x0A])]\<rparr>"
    from Cons.prems False have "puts E args ?s1 = (out, s')" by simp
    from Cons.IH [OF this] have "kept ?s1 s'" "stack s' = stack s" by simp_all
    with kept_trans [OF kept_other_fields(1)] show ?thesis by blast
  qed
qed

lemma Run_with_kept:
  assumes ev: "balanced ev" and run: "Run_with E ev input s = (out, s')"
  shows "kept s s' \<and> stack s' = stack s"
proof (cases "RubyParse E input")
  case None
  with run show ?thesis by (auto simp: Run_with_def kept_refl)
next
  case (Some statements)
  obtain out1 s1 where e: "ev statements (map_index (ObjectSpace s) ''main'') (Unshift ''main'' s)
                            = (out1, s1)"
    by fastforce
  from balancedD [OF ev e] have k: "kept (Unshift ''main'' s) s1"
    and st: "stack s1 = stack (Unshift ''main'' s)" by simp_all
  from run Some e have s': "s' = Shift s1" by (simp add: Run_with_def)
  have "kept s s'"
    unfolding s' using kept_trans [OF kept_Unshift kept_trans [OF k kept_Shift]] .
  moreover have "stack s' = stack s"
    by (simp add: s' st Shift_def Unshift_def)
  ultimately show ?thesis by simp
qed

lemma load_file_kept:
  assumes ev: "balanced ev" and load: "load_file E ev fullPath contents s = (out, s')"
  shows "kept s s' \<and> stack s' = stack s"
proof -
  obtain out1 s1 where r: "Run_with E ev contents (s\<lparr>currentFilename := fullPath\<rparr>) = (out1, s1)"
    by fastforce
  from Run_with_kept [OF ev r]
  have k: "kept (s\<lparr>currentFilename := fullPath\<rparr>) s1" and st: "stack s1 = stack s" by simp_all
  from load r have s': "s' = s1\<lparr>currentFilename := currentFilename s\<rparr>"
    by (auto simp: load_file_def Let_def split: outcome.splits)
  from k have "kept s s'"
    by (simp add: s' kept_def symbols_interned_def)
  with st s' show ?thesis by simp
qed

lemma search_load_path_kept:
  assumes ev: "balanced ev"
  shows "search_load_path E ev fileName members s = (out, s') \<Longrightarrow> kept s s' \<and> stack s' = stack s"
proof (induction members arbitrary: s)
  case Nil
  then show ?case by (auto simp: kept_refl)
next
  case (Cons m members)
  show ?case
  proof (cases "\<exists>path. m = StringValue path")
    case False
    then have "search_load_path E ev fileName (m # members) s = (Panic, s)"
      by (cases m) simp_all
    with Cons.prems show ?thesis by (auto simp: kept_refl)
  next
    case True
    then obtain path where m: "m = StringValue path" by blast
    let ?p = "Join E path (fileName @ ''.rb'')"
    let ?s1 = "s\<lparr>trace := trace s @ [OsOpen ?p]\<rparr>"
    have k1: "kept s ?s1" by (rule kept_other_fields)
    consider (skip) "search_load_path E ev fileName members ?s1 = (out, s')"
      | (load) contents where "load_file E ev ?p contents ?s1 = (out, s')"
      using Cons.prems m by (auto simp: Let_def split: if_splits option.splits)
    then show ?thesis
    proof cases
      case skip
      from Cons.IH [OF skip] kept_trans [OF k1] show ?thesis by simp
    next
      case load
      from load_file_kept [OF ev load] kept_trans [OF k1] show ?thesis by simp
    qed
  qed
qed

lemma require_kept:
  assumes ev: "balanced ev" and req: "require E ev args s = (out, s')"
  shows "kept s s' \<and> stack s' = stack s"
proof (cases args)
  case Nil
  with req show ?thesis by (auto simp: kept_refl)
next
  case (Cons a rest)
  show ?thesis
  proof (cases "\<exists>fileName. a = StringValue fileName")
    case False
    then have "require E ev (a # rest) s = (Panic, s)"
      by (simp add: require_not_string)
    with req Cons show ?thesis by (auto simp: kept_refl)
  next
    case True
    then obtain fileName where a: "a = StringValue fileName" by blast
    show ?thesis
    proof (cases "fileName = ''rubygems''")
      case True
      with req Cons a show ?thesis by (auto simp: kept_refl)
    next
      case False
      with req Cons a
      have "search_load_path E ev fileName (Members E (heap s)) s = (out, s')" by simp
      from search_load_path_kept [OF ev this] show ?thesis .
    qed
  qed
qed

lemma method_Execute_kept:
  assumes ev: "balanced ev" and ex: "method_Execute E ev m args s = (out, s')"
  shows "kept s s' \<and> stack s' = stack s"
proof (cases m)
  case MainRequire
  with ex require_kept [OF ev] show ?thesis by simp
next
  case MainPuts
  with ex puts_kept show ?thesis by simp
next
  case (BuiltinMethod name k)
  with ex show ?thesis
    by (auto simp: kept_other_fields split: prod.splits)
qed (use ex in \<open>auto simp: kept_refl\<close>)

lemma eval_args_kept:
  assumes ev: "balanced ev"
  shows "eval_args ev context astArgs args s = (r, s') \<Longrightarrow> kept s s' \<and> stack s' = stack s"
proof (induction astArgs arbitrary: args s)
  case Nil
  then show ?case by (auto simp: kept_refl)
next
  case (Cons a astArgs)
  obtain out1 s1 where e: "ev [a] context s = (out1, s1)" by fastforce
  from balancedD [OF ev e] have k: "kept s s1" and st: "stack s1 = stack s" by simp_all
  consider (go) arg where "eval_args ev context astArgs (args @ [arg]) s1 = (r, s')"
    | (stop) "s' = s1"
    using Cons.prems e by (auto split: outcome.splits option.splits)
  then show ?case
  proof cases
    case go
    from Cons.IH [OF go] k st kept_trans show ?thesis by metis
  next
    case stop
    with k st show ?thesis by simp
  qed
qed

lemma rescue_loop_kept:
  assumes ev: "balanced ev"
  shows "rescue_loop E ev context rubyErr rescues err s = (r, s')
           \<Longrightarrow> kept s s' \<and> stack s' = stack s"
proof (induction rescues arbitrary: err s)
  case Nil
  then show ?case by (auto simp: kept_refl)
next
  case (Cons c rescues)
  show ?case
  proof (cases "\<exists>className body. c = Rescue className body")
    case False
    then have "rescue_loop E ev context rubyErr (c # rescues) err s = (Inl Panic, s)"
      by (cases c) simp_all
    with Cons.prems show ?thesis by (auto simp: kept_refl)
  next
    case True
    then obtain className body where c: "c = Rescue className body" by blast
    obtain out1 s1 where e: "ev body context s = (out1, s1)" by fastforce
    from balancedD [OF ev e] have k: "kept s s1" and st: "stack s1 = stack s" by simp_all
    consider (next_same) "rescue_loop E ev context rubyErr rescues err s = (r, s')"
      | (next_failed) err' where "rescue_loop E ev context rubyErr rescues err' s1 = (r, s')"
      | (stop) "s' = s1"
      using Cons.prems c e by (auto split: if_splits outcome.splits option.splits)
    then show ?thesis
    proof cases
      case next_same
      from Cons.IH [OF this] show ?thesis .
    next
      case next_failed
      from Cons.IH [OF this] k st kept_trans show ?thesis by metis
    next
      case stop
      with k st show ?thesis by simp
    qed
  qed
qed


lemma assign_result_pending: "pending (assign_result out l) = deferred l"
  by (cases out) simp_all

lemma exec_IfBlock_kept:
  assumes ev: "balanced ev" and ex: "exec_IfBlock ev context cond body else_body l s = (r, s')"
  shows "kept s s' \<and> stack s' = stack s \<and> pending r = deferred l"
proof -
  obtain out1 s1 where e: "ev (if truthy cond then body else else_body) context s = (out1, s1)"
    by fastforce
  from ex e have "r = assign_result out1 l" "s' = s1"
    by (auto simp: exec_IfBlock_def split: if_splits)
  with balancedD [OF ev e] show ?thesis
    by (simp add: assign_result_pending)
qed

lemma exec_FuncDecl_kept:
  assumes "exec_FuncDecl E name l s = (r, s')"
  shows "kept s s' \<and> stack s' = stack s \<and> pending r = deferred l"
  using assms by (auto simp: exec_FuncDecl_def Let_def kept_refl kept_other_fields split: if_splits)

lemma exec_BareReference_kept:
  assumes "exec_BareReference E context name l s = (r, s')"
  shows "kept s s' \<and> stack s' = stack s \<and> pending r = deferred l"
  using assms
  by (auto simp: exec_BareReference_def kept_refl split: option.splits if_splits)

lemma bind_LHS_kept: "bind_LHS lhs v s = Some s' \<Longrightarrow> kept s s' \<and> stack s' = stack s"
  by (cases lhs) (auto simp: kept_other_fields)

lemma exec_Assignment_kept:
  assumes ev: "balanced ev" and ex: "exec_Assignment ev context lhs rhs l s = (r, s')"
  shows "kept s s' \<and> stack s' = stack s \<and> pending r = deferred l"
proof -
  obtain out1 s1 where e: "ev [rhs] context s = (out1, s1)" by fastforce
  from balancedD [OF ev e] have k: "kept s s1" and st: "stack s1 = stack s" by simp_all
  consider (bound) v where "bind_LHS lhs v s1 = Some s'" "r = Next l"
    | (left) "s' = s1" "pending r = deferred l"
    using ex e by (auto simp: exec_Assignment_def split: outcome.splits option.splits)
  then show ?thesis
  proof cases
    case bound
    from bind_LHS_kept [OF bound(1)] k st bound(2) kept_trans show ?thesis
      by (metis pending.simps(1))
  next
    case left
    with k st show ?thesis by simp
  qed
qed

lemma exec_Begin_kept:
  assumes ev: "balanced ev" and ex: "exec_Begin E ev context body rescues l s = (r, s')"
  shows "kept s s' \<and> stack s' = stack s \<and> pending r = deferred l"
proof -
  obtain out1 s1 where e: "ev body context s = (out1, s1)" by fastforce
  from balancedD [OF ev e] have k: "kept s s1" and st: "stack s1 = stack s" by simp_all
  consider (rescued) err r2 where
      "rescue_loop E ev context err rescues (Some err) s1 = (r2, s')" "pending r = deferred l"
    | (left) "s' = s1" "pending r = deferred l"
    using ex e
    by (auto simp: exec_Begin_def
          split: outcome.splits option.splits if_splits sum.splits prod.splits)
  then show ?thesis
  proof cases
    case rescued
    from rescue_loop_kept [OF ev rescued(1)] k st rescued(2) kept_trans show ?thesis
      by metis
  next
    case left
    with k st show ?thesis by simp
  qed
qed

lemma call_target_kept:
  assumes ev: "balanced ev"
    and ex: "call_target E ev context func astArgs target l s = (r, s')"
  shows "kept s s' \<and> drop (pending r) (stack s') = drop (deferred l) (stack s)"
proof (cases "target = GoNil")
  case True
  with ex show ?thesis by (auto simp: call_target_def kept_refl)
next
  case False
  show ?thesis
  proof (cases "Method E (heap s) target func")
    case None
    with ex False show ?thesis
      by (auto simp: call_target_def kept_other_fields)
  next
    case (Some m)
    obtain ra s1 where a: "eval_args ev context astArgs [] s = (ra, s1)" by fastforce
    from eval_args_kept [OF ev a] have k1: "kept s s1" and st1: "stack s1 = stack s"
      by simp_all
    show ?thesis
    proof (cases ra)
      case (Inl out)
      with ex False Some a have "r = Exit out (deferred l)" "s' = s1"
        by (auto simp: call_target_def)
      with k1 st1 show ?thesis by simp
    next
      case (Inr args)
      obtain out3 s3 where
        x: "method_Execute E ev m args (Unshift (method_Name m) s1) = (out3, s3)"
        by fastforce
      from method_Execute_kept [OF ev x]
      have k3: "kept (Unshift (method_Name m) s1) s3"
        and st3: "stack s3 = method_Name m # stack s" by (simp_all add: Unshift_def st1)
      from ex False Some a Inr x have "s' = s3" "pending r = Suc (deferred l)"
        by (auto simp: call_target_def Let_def split: outcome.splits option.splits)
      moreover have "kept s s3"
        using kept_trans [OF k1 kept_trans [OF kept_Unshift k3]] .
      ultimately show ?thesis by (simp add: st3)
    qed
  qed
qed

lemma exec_CallExpression_kept:
  assumes ev: "balanced ev"
    and ex: "exec_CallExpression E ev context callTarget func astArgs l s = (r, s')"
  shows "kept s s' \<and> drop (pending r) (stack s') = drop (deferred l) (stack s)"
proof (cases callTarget)
  case None
  with ex call_target_kept [OF ev] show ?thesis by (simp add: exec_CallExpression_def)
next
  case (Some t)
  obtain out1 s1 where e: "ev [t] context s = (out1, s1)" by fastforce
  from balancedD [OF ev e] have k: "kept s s1" and st: "stack s1 = stack s" by simp_all
  consider (called) target where
      "call_target E ev context func astArgs target (l\<lparr>returnErr := None\<rparr>) s1 = (r, s')"
    | (left) "s' = s1" "pending r = deferred l"
    using ex e Some
    by (auto simp: exec_CallExpression_def split: outcome.splits option.splits)
  then show ?thesis
  proof cases
    case called
    from call_target_kept [OF ev called] k st kept_trans show ?thesis
      by (metis locals.select_convs(3) locals.surjective locals.update_convs(2))
  next
    case left
    with k st show ?thesis by simp
  qed
qed

lemma statement_kept:
  assumes ev: "balanced ev" and ex: "statement E ev context st l s = (r, s')"
  shows "kept s s' \<and> drop (pending r) (stack s') = drop (deferred l) (stack s)"
proof (cases st)
  case (IfBlock cond body else_body)
  with ex exec_IfBlock_kept [OF ev] show ?thesis by fastforce
next
  case (FuncDecl name)
  with ex exec_FuncDecl_kept show ?thesis by fastforce
next
  case (Symbol name)
  with ex exec_Symbol_kept show ?thesis by fastforce
next
  case (BareReference name)
  with ex exec_BareReference_kept show ?thesis by fastforce
next
  case (CallExpression callTarget func astArgs)
  with ex exec_CallExpression_kept [OF ev] show ?thesis by simp
next
  case (Assignment lhs rhs)
  with ex exec_Assignment_kept [OF ev] show ?thesis by fastforce
next
  case (Begin body rescues)
  with ex exec_Begin_kept [OF ev] show ?thesis by fastforce
qed (use ex in \<open>auto simp: kept_refl\<close>)

lemma for_statements_kept:
  assumes ev: "balanced ev"
  shows "for_statements (statement E ev context) statements l s = (out, d, s')
           \<Longrightarrow> kept s s' \<and> drop d (stack s') = drop (deferred l) (stack s)"
proof (induction statements arbitrary: l s)
  case Nil
  then show ?case by (auto simp: kept_refl)
next
  case (Cons st statements)
  obtain r s1 where x: "statement E ev context st l s = (r, s1)" by fastforce
  note first = statement_kept [OF ev x]
  show ?case
  proof (cases r)
    case (Next l1)
    with Cons.prems x
    have "for_statements (statement E ev context) statements l1 s1 = (out, d, s')" by simp
    from Cons.IH [OF this] first Next kept_trans show ?thesis
      by (metis pending.simps(1))
  next
    case (Exit out1 d1)
    with Cons.prems x have "d = d1" "s' = s1" by simp_all
    with first Exit show ?thesis by simp
  qed
qed

lemma loop_prefix_kept:
  assumes ev: "balanced ev"
  shows "loop_prefix (statement E ev context) statements l s = Some (l', s')
           \<Longrightarrow> kept s s' \<and> drop (deferred l') (stack s') = drop (deferred l) (stack s)"
proof (induction statements arbitrary: l s)
  case Nil
  then show ?case by (auto simp: kept_refl)
next
  case (Cons st statements)
  obtain r s1 where x: "statement E ev context st l s = (r, s1)" by fastforce
  note first = statement_kept [OF ev x]
  from Cons.prems x obtain l1 where r: "r = Next l1"
    and rest: "loop_prefix (statement E ev context) statements l1 s1 = Some (l', s')"
    by (cases r) auto
  from Cons.IH [OF rest] first r kept_trans show ?case
    by (metis pending.simps(1))
qed

lemma executeWithContext_balanced: "balanced (executeWithContext E depth)"
proof (induction depth)
  case 0
  show ?case by (simp add: balanced_def kept_refl)
next
  case (Suc depth)
  show ?case
    unfolding balanced_def
  proof (intro allI)
    fix statements ctx and s :: "'a vm"
    obtain out d s1 where
      f: "for_statements (statement E (executeWithContext E depth) ctx) statements
            initial_locals s = (out, d, s1)"
      using prod_cases3 by blast
    from for_statements_kept [OF Suc f]
    have k: "kept s s1" and st: "drop d (stack s1) = stack s"
      by (simp_all add: initial_locals_def)
    have r: "executeWithContext E (Suc depth) statements ctx s = (out, run_deferred d s1)"
      using f by simp
    have "kept s1 (run_deferred d s1)"
      by (simp add: run_deferred_stack kept_other_fields)
    with k st show "kept s (snd (executeWithContext E (Suc depth) statements ctx s))
        \<and> stack (snd (executeWithContext E (Suc depth) statements ctx s)) = stack s"
      unfolding r using kept_trans by (auto simp: run_deferred_stack)
  qed
qed

text \<open>
  In particular a top-level run, whatever its result, returns with the call stack and
  the unit name it was given.
\<close>

lemma Run_restores_stack:
  "stack (snd (Run E depth input s)) = stack s
   \<and> currentFilename (snd (Run E depth input s)) = currentFilename s"
proof -
  obtain out s' where r: "Run_with E (executeWithContext E depth) input s = (out, s')"
    by fastforce
  from Run_with_kept [OF executeWithContext_balanced r] show ?thesis
    by (simp add: Run_def r kept_def)
qed

subsection \<open>Symbols\<close>

lemma executeWithContext_Symbol:
  "executeWithContext E (Suc depth) [Symbol name] context s =
     (case CurrentSymbols s name of
        None \<Rightarrow>
          (Returned (SymbolValue (allocated s) name) None,
           s\<lparr>allocated := Suc (allocated s),
             CurrentSymbols := (CurrentSymbols s)(name \<mapsto> SymbolValue (allocated s) name)\<rparr>)
      | Some v \<Rightarrow> (Returned v None, s))"
  by (simp add: exec_Symbol_def initial_locals_def run_deferred_0 Let_def split: option.splits)

text \<open>
  C6. Let the table of symbols satisfy its invariant, as it does in a new VM. The
  evaluation of a symbol literal \<^verbatim>\<open>a\<close> returns a symbol object of that name, which is
  in the table afterwards, and which is newly allocated when the name was not in the
  table. After any further evaluation, the evaluation of a symbol literal \<^verbatim>\<open>b\<close>
  returns the same object (the same address, and nothing is allocated or stored) when
  \<^verbatim>\<open>b\<close> is \<^verbatim>\<open>a\<close>, and an object at another address when it is not.
\<close>

theorem symbol_literals_interned:
  assumes inv: "symbols_interned s0"
    and first: "executeWithContext E (Suc d1) [Symbol a] c1 s0 = (out1, s1)"
    and between: "executeWithContext E d2 statements c2 s1 = (out2, s2)"
    and later: "executeWithContext E (Suc d3) [Symbol b] c3 s2 = (out3, s3)"
  shows "\<exists>a1 a3. out1 = Returned (SymbolValue a1 a) None
           \<and> out3 = Returned (SymbolValue a3 b) None
           \<and> CurrentSymbols s1 a = Some (SymbolValue a1 a)
           \<and> (CurrentSymbols s0 a = None \<longrightarrow> a1 = allocated s0 \<and> allocated s1 = Suc a1)
           \<and> (a = b \<longrightarrow> a3 = a1 \<and> s3 = s2)
           \<and> (a \<noteq> b \<longrightarrow> a3 \<noteq> a1)"
proof -
  have b1: "balanced (executeWithContext E (Suc d1))"
    and b2: "balanced (executeWithContext E d2)"
    by (rule executeWithContext_balanced)+
  from balancedD [OF b1 first] inv have inv1: "symbols_interned s1"
    by (simp add: kept_def)
  from balancedD [OF b2 between] inv1
  have inv2: "symbols_interned s2"
    and mono: "\<And>n v. CurrentSymbols s1 n = Some v \<Longrightarrow> CurrentSymbols s2 n = Some v"
    by (simp_all add: kept_def)
  obtain a1 where out1: "out1 = Returned (SymbolValue a1 a) None"
    and tab1: "CurrentSymbols s1 a = Some (SymbolValue a1 a)"
    and fresh: "CurrentSymbols s0 a = None \<longrightarrow> a1 = allocated s0 \<and> allocated s1 = Suc a1"
  proof (cases "CurrentSymbols s0 a")
    case None
    with first have "out1 = Returned (SymbolValue (allocated s0) a) None"
      and "CurrentSymbols s1 a = Some (SymbolValue (allocated s0) a)"
      and "CurrentSymbols s0 a = None
             \<longrightarrow> allocated s0 = allocated s0 \<and> allocated s1 = Suc (allocated s0)"
      by (auto simp: executeWithContext_Symbol simp del: executeWithContext.simps)
    then show ?thesis
      by (rule that)
  next
    case (Some v)
    with inv obtain x where "v = SymbolValue x a"
      unfolding symbols_interned_def by blast
    with Some first have "out1 = Returned (SymbolValue x a) None"
      and "CurrentSymbols s1 a = Some (SymbolValue x a)"
      and "CurrentSymbols s0 a = None \<longrightarrow> x = allocated s0 \<and> allocated s1 = Suc x"
      by (auto simp: executeWithContext_Symbol simp del: executeWithContext.simps)
    then show ?thesis
      by (rule that)
  qed
  from mono [OF tab1] have tab2: "CurrentSymbols s2 a = Some (SymbolValue a1 a)" .
  from inv2 tab2 have below: "a1 < allocated s2"
    unfolding symbols_interned_def by blast
  obtain a3 where out3: "out3 = Returned (SymbolValue a3 b) None"
    and same: "a = b \<longrightarrow> a3 = a1 \<and> s3 = s2"
    and other: "a \<noteq> b \<longrightarrow> a3 \<noteq> a1"
  proof (cases "CurrentSymbols s2 b")
    case None
    with tab2 have "a \<noteq> b" by auto
    have miss: "out3 = Returned (SymbolValue (allocated s2) b) None"
      using None later
      by (simp add: executeWithContext_Symbol del: executeWithContext.simps)
    from below \<open>a \<noteq> b\<close> have "a = b \<longrightarrow> allocated s2 = a1 \<and> s3 = s2"
      and "a \<noteq> b \<longrightarrow> allocated s2 \<noteq> a1" by simp_all
    with miss show ?thesis
      by (rule that)
  next
    case (Some v)
    with inv2 obtain x where v: "v = SymbolValue x b"
      unfolding symbols_interned_def by blast
    have "a \<noteq> b \<longrightarrow> x \<noteq> a1"
    proof
      assume "a \<noteq> b"
      show "x \<noteq> a1"
      proof
        assume "x = a1"
        with Some v tab2 have "address (SymbolValue a1 a) = address v" by simp
        with inv2 tab2 Some have "a = b"
          unfolding symbols_interned_def by blast
        with \<open>a \<noteq> b\<close> show False by simp
      qed
    qed
    then have differ: "a \<noteq> b \<longrightarrow> x \<noteq> a1" .
    have hit: "out3 = Returned (SymbolValue x b) None" "s3 = s2"
      using later Some v
      by (simp_all add: executeWithContext_Symbol del: executeWithContext.simps)
    have "a = b \<longrightarrow> x = a1"
      using Some v tab2 by auto
    then have agree: "a = b \<longrightarrow> x = a1 \<and> s3 = s2"
      using hit by simp
    from hit(1) agree differ show ?thesis
      by (rule that)
  qed
  have "out1 = Returned (SymbolValue a1 a) None
           \<and> out3 = Returned (SymbolValue a3 b) None
           \<and> CurrentSymbols s1 a = Some (SymbolValue a1 a)
           \<and> (CurrentSymbols s0 a = None \<longrightarrow> a1 = allocated s0 \<and> allocated s1 = Suc a1)
           \<and> (a = b \<longrightarrow> a3 = a1 \<and> s3 = s2)
           \<and> (a \<noteq> b \<longrightarrow> a3 \<noteq> a1)"
    using out1 out3 tab1 fresh same other by simp
  then show ?thesis
    by (intro exI)
qed

lemma symbols_interned_NewVM: "symbols_interned (NewVM h name)"
  by (simp add: symbols_interned_def NewVM_def)

theorem symbol_literals_interned_witness:
  "\<exists>a1 a3 s1 s2 s3.
      executeWithContext demo (Suc 0) [Symbol ''a''] MainObject (NewVM [] ''irb'')
        = (Returned (SymbolValue a1 ''a'') None, s1)
    \<and> executeWithContext demo 2 [Symbol ''b'', CallExpression None ''puts'' []] MainObject s1
        = (Returned GoNil None, s2)
    \<and> executeWithContext demo (Suc 0) [Symbol ''a''] MainObject s2
        = (Returned (SymbolValue a3 ''a'') None, s3)
    \<and> a3 = a1 \<and> s3 = s2"
proof -
  obtain out1 s1 where first:
    "executeWithContext demo (Suc 0) [Symbol ''a''] MainObject (NewVM [] ''irb'') = (out1, s1)"
    by fastforce
  obtain out2 s2 where between:
    "executeWithContext demo 2 [Symbol ''b'', CallExpression None ''puts'' []] MainObject s1
       = (out2, s2)"
    by fastforce
  obtain out3 s3 where later:
    "executeWithContext demo (Suc 0) [Symbol ''a''] MainObject s2 = (out3, s3)"
    by fastforce
  have s1: "s1 = (NewVM [] ''irb'')\<lparr>allocated := Suc 0,
                  CurrentSymbols := [''a'' \<mapsto> SymbolValue 0 ''a'']\<rparr>"
    using first by (simp add: executeWithContext_Symbol NewVM_def del: executeWithContext.simps)
  have out2: "out2 = Returned GoNil None"
    using between unfolding s1
    by (simp add: numeral_2_eq_2 exec_Symbol_def exec_CallExpression_def call_target_def
          initial_locals_def run_deferred_def Shift_def Unshift_def demo_def demo_Method_def
          NewVM_def Let_def)
  from symbol_literals_interned [OF symbols_interned_NewVM first between later]
    first between later out2
  show ?thesis by auto
qed

subsection \<open>The unit name during \<^verbatim>\<open>require\<close>\<close>

lemma require_loads:
  assumes "fileName \<noteq> ''rubygems''"
    and "Members E (heap s) = map StringValue skipped @ StringValue dir # later"
    and "\<forall>d\<in>set skipped. \<not> readable E (unit_path E d fileName)"
    and "os_Open E (unit_path E dir fileName)"
    and "ReadAll E (unit_path E dir fileName) = Some contents"
  shows "require E ev (StringValue fileName # args) s
         = load_file E ev (unit_path E dir fileName) contents
             (s\<lparr>trace := trace s
                   @ map (\<lambda>d. OsOpen (unit_path E d fileName)) (skipped @ [dir])\<rparr>)"
proof -
  have "require E ev (StringValue fileName # args) s
        = search_load_path E ev fileName (StringValue dir # later)
            (s\<lparr>trace := trace s @ map (\<lambda>d. OsOpen (unit_path E d fileName)) skipped\<rparr>)"
    using assms(1,2) search_load_path_skip [OF assms(3)] by simp
  also have "\<dots> = load_file E ev (unit_path E dir fileName) contents
                    (s\<lparr>trace := trace s
                          @ map (\<lambda>d. OsOpen (unit_path E d fileName)) (skipped @ [dir])\<rparr>)"
    using assms(4,5) by (simp add: unit_path_def Let_def)
  finally show ?thesis .
qed

lemma load_file_restores:
  "currentFilename (snd (load_file E ev fullPath contents s)) = currentFilename s"
  by (simp add: load_file_def Let_def split: prod.splits outcome.splits)

lemma load_file_parsed:
  assumes "RubyParse E contents = Some statements"
  shows "snd (load_file E ev fullPath contents s)
         = (Shift (snd (ev statements (map_index (ObjectSpace s) ''main'')
                          (Unshift ''main'' (s\<lparr>currentFilename := fullPath\<rparr>)))))
             \<lparr>currentFilename := currentFilename s\<rparr>"
  using assms
  by (simp add: load_file_def Run_with_def Let_def split: prod.splits outcome.splits)

text \<open>
  C7. Let \<^verbatim>\<open>require\<close> find the unit: the members of the load path before \<open>dir\<close> have
  no file that opens and can be read, and the file of \<open>dir\<close> opens and is read. Then,
  whatever the nested run does (it may fail, panic or not return), the unit name after
  \<^verbatim>\<open>require\<close> is the one before it. When the contents parse, the nested evaluation
  starts in a state whose unit name is the path of the file; the unit name is that
  path whenever the loop of the nested run arrives behind some of the statements of the
  file, and a file-name constant evaluated there, as a statement or as a nested
  expression, yields the path.
\<close>

theorem require_sets_and_restores_unit_name:
  assumes name: "fileName \<noteq> ''rubygems''"
    and members: "Members E (heap s) = map StringValue skipped @ StringValue dir # later"
    and skipped: "\<forall>d\<in>set skipped. \<not> readable E (unit_path E d fileName)"
    and opens: "os_Open E (unit_path E dir fileName)"
    and reads: "ReadAll E (unit_path E dir fileName) = Some contents"
  shows "currentFilename
           (snd (require E (executeWithContext E depth) (StringValue fileName # args) s))
         = currentFilename s
       \<and> (RubyParse E contents = Some statements \<longrightarrow>
            (let nested = Unshift ''main''
                   (s\<lparr>trace := trace s
                         @ map (\<lambda>d. OsOpen (unit_path E d fileName)) (skipped @ [dir]),
                      currentFilename := unit_path E dir fileName\<rparr>);
                 main = map_index (ObjectSpace s) ''main''
             in snd (require E (executeWithContext E depth) (StringValue fileName # args) s)
                  = (Shift (snd (executeWithContext E depth statements main nested)))
                      \<lparr>currentFilename := currentFilename s\<rparr>
                \<and> (\<forall>before after l t d.
                      depth = Suc d \<and> statements = before @ after
                      \<and> loop_prefix (statement E (executeWithContext E d) main) before
                            initial_locals nested = Some (l, t)
                      \<longrightarrow> currentFilename t = unit_path E dir fileName
                          \<and> statement E (executeWithContext E d) main FileNameConstReference l t
                              = (Next (l\<lparr>returnValue := StringValue (unit_path E dir fileName)\<rparr>),
                                 t)
                          \<and> executeWithContext E depth [FileNameConstReference] main t
                              = (Returned (StringValue (unit_path E dir fileName)) None, t))))"
proof (intro conjI impI)
  note loads = require_loads [OF name members skipped opens reads]
  show "currentFilename
          (snd (require E (executeWithContext E depth) (StringValue fileName # args) s))
        = currentFilename s"
    unfolding loads by (simp add: load_file_restores)
  assume parses: "RubyParse E contents = Some statements"
  let ?nested = "Unshift ''main''
                   (s\<lparr>trace := trace s
                         @ map (\<lambda>d. OsOpen (unit_path E d fileName)) (skipped @ [dir]),
                      currentFilename := unit_path E dir fileName\<rparr>)"
  let ?main = "map_index (ObjectSpace s) ''main''"
  have state: "snd (require E (executeWithContext E depth) (StringValue fileName # args) s)
                  = (Shift (snd (executeWithContext E depth statements ?main ?nested)))
                      \<lparr>currentFilename := currentFilename s\<rparr>"
    unfolding loads by (simp add: load_file_parsed [OF parses])
  have inside: "currentFilename t = unit_path E dir fileName
      \<and> statement E (executeWithContext E d) ?main FileNameConstReference l t
          = (Next (l\<lparr>returnValue := StringValue (unit_path E dir fileName)\<rparr>), t)
      \<and> executeWithContext E (Suc d) [FileNameConstReference] ?main t
          = (Returned (StringValue (unit_path E dir fileName)) None, t)"
    if "loop_prefix (statement E (executeWithContext E d) ?main) before initial_locals ?nested
          = Some (l, t)" for before l t d
  proof -
    from loop_prefix_kept [OF executeWithContext_balanced that]
    have "currentFilename t = currentFilename ?nested"
      by (simp add: kept_def)
    then show ?thesis
      by (simp add: Unshift_def initial_locals_def run_deferred_0)
  qed
  from state inside
  show "let nested = ?nested; main = ?main
        in snd (require E (executeWithContext E depth) (StringValue fileName # args) s)
                  = (Shift (snd (executeWithContext E depth statements main nested)))
                      \<lparr>currentFilename := currentFilename s\<rparr>
                \<and> (\<forall>before after l t d.
                      depth = Suc d \<and> statements = before @ after
                      \<and> loop_prefix (statement E (executeWithContext E d) main) before
                            initial_locals nested = Some (l, t)
                      \<longrightarrow> currentFilename t = unit_path E dir fileName
                          \<and> statement E (executeWithContext E d) main FileNameConstReference l t
                              = (Next (l\<lparr>returnValue := StringValue (unit_path E dir fileName)\<rparr>),
                                 t)
                          \<and> executeWithContext E depth [FileNameConstReference] main t
                              = (Returned (StringValue (unit_path E dir fileName)) None, t))"
    unfolding Let_def by blast
qed

lemma demo_load_bad:
  "load_file demo (executeWithContext demo 2) ''/b/bad.rb'' ''zzz''
     ((NewVM [StringValue ''/a'', StringValue ''/b''] ''irb'')
        \<lparr>trace := [OsOpen ''/a/bad.rb'', OsOpen ''/b/bad.rb'']\<rparr>)
   = (Returned TrueValue (Some (NameError ''zzz'' ''main'' ''Object'' [''main''])),
      (NewVM [StringValue ''/a'', StringValue ''/b''] ''irb'')
        \<lparr>trace := [OsOpen ''/a/bad.rb'', OsOpen ''/b/bad.rb'']\<rparr>)"
  by (simp add: load_file_def Run_with_def demo_def demo_parse_def numeral_2_eq_2
        exec_BareReference_def initial_locals_def run_deferred_0 Shift_def Unshift_def
        NewVM_def map_index_def)

theorem require_sets_and_restores_unit_name_witness:
  "executeWithContext demo 2 [FileNameConstReference] MainObject
     (Unshift ''main''
        ((NewVM [StringValue ''/a'', StringValue ''/b''] ''irb'')
           \<lparr>trace := [OsOpen ''/a/foo.rb'', OsOpen ''/b/foo.rb''],
             currentFilename := ''/b/foo.rb''\<rparr>))
     = (Returned (StringValue ''/b/foo.rb'') None,
        Unshift ''main''
          ((NewVM [StringValue ''/a'', StringValue ''/b''] ''irb'')
             \<lparr>trace := [OsOpen ''/a/foo.rb'', OsOpen ''/b/foo.rb''],
               currentFilename := ''/b/foo.rb''\<rparr>))
   \<and> ObjectSpace
     (snd (require demo (executeWithContext demo 2) [StringValue ''foo'']
             (NewVM [StringValue ''/a'', StringValue ''/b''] ''irb''))) ''x''
     = Some (StringValue ''/b/foo.rb'')
   \<and> currentFilename
     (snd (require demo (executeWithContext demo 2) [StringValue ''foo'']
             (NewVM [StringValue ''/a'', StringValue ''/b''] ''irb'')))
     = ''irb''
   \<and> fst (require demo (executeWithContext demo 2) [StringValue ''bad'']
             (NewVM [StringValue ''/a'', StringValue ''/b''] ''irb''))
     = Returned TrueValue (Some (NameError ''zzz'' ''main'' ''Object'' [''main'']))
   \<and> currentFilename
     (snd (require demo (executeWithContext demo 2) [StringValue ''bad'']
             (NewVM [StringValue ''/a'', StringValue ''/b''] ''irb'')))
     = ''irb''"
proof -
  let ?s = "NewVM [StringValue ''/a'', StringValue ''/b''] ''irb''"
  have members: "Members demo (heap ?s) = map StringValue [''/a''] @ StringValue ''/b'' # []"
    by (simp add: demo_def NewVM_def)
  have paths: "unit_path demo ''/a'' ''foo'' = ''/a/foo.rb''"
    "unit_path demo ''/b'' ''foo'' = ''/b/foo.rb''"
    "unit_path demo ''/a'' ''bad'' = ''/a/bad.rb''"
    "unit_path demo ''/b'' ''bad'' = ''/b/bad.rb''"
    by (simp_all add: unit_path_def demo_def)
  have skip_foo: "\<forall>d\<in>set [''/a'']. \<not> readable demo (unit_path demo d ''foo'')"
    and skip_bad: "\<forall>d\<in>set [''/a'']. \<not> readable demo (unit_path demo d ''bad'')"
    by (simp_all add: readable_def unit_path_def demo_def)
  have open_foo: "os_Open demo (unit_path demo ''/b'' ''foo'')"
    and open_bad: "os_Open demo (unit_path demo ''/b'' ''bad'')"
    and read_foo: "ReadAll demo (unit_path demo ''/b'' ''foo'') = Some ''x = __FILE__''"
    and read_bad: "ReadAll demo (unit_path demo ''/b'' ''bad'') = Some ''zzz''"
    unfolding paths by (simp_all add: demo_def)
  have names: "''foo'' \<noteq> ''rubygems''" "''bad'' \<noteq> ''rubygems''"
    by simp_all
  have t0: "trace ?s = []" "currentFilename ?s = ''irb''"
    by (simp_all add: NewVM_def)
  note foo = require_sets_and_restores_unit_name
      [OF names(1) members skip_foo open_foo read_foo, of 2 "[]" "[]", THEN conjunct1]
  note bad = require_sets_and_restores_unit_name
      [OF names(2) members skip_bad open_bad read_bad, of 2 "[]" "[]", THEN conjunct1]
  have loaded_foo: "require demo (executeWithContext demo 2) [StringValue ''foo''] ?s
      = load_file demo (executeWithContext demo 2) ''/b/foo.rb'' ''x = __FILE__''
          (?s\<lparr>trace := [OsOpen ''/a/foo.rb'', OsOpen ''/b/foo.rb'']\<rparr>)"
    using require_loads [OF names(1) members skip_foo open_foo read_foo,
        of "executeWithContext demo 2" "[]"]
    by (simp add: paths t0)
  have loaded_bad: "require demo (executeWithContext demo 2) [StringValue ''bad''] ?s
      = load_file demo (executeWithContext demo 2) ''/b/bad.rb'' ''zzz''
          (?s\<lparr>trace := [OsOpen ''/a/bad.rb'', OsOpen ''/b/bad.rb'']\<rparr>)"
    using require_loads [OF names(2) members skip_bad open_bad read_bad,
        of "executeWithContext demo 2" "[]"]
    by (simp add: paths t0)
  have x: "ObjectSpace (snd (require demo (executeWithContext demo 2) [StringValue ''foo''] ?s))
             ''x'' = Some (StringValue ''/b/foo.rb'')"
    unfolding loaded_foo demo_load_foo by simp
  have failed: "fst (require demo (executeWithContext demo 2) [StringValue ''bad''] ?s)
      = Returned TrueValue (Some (NameError ''zzz'' ''main'' ''Object'' [''main'']))"
    unfolding loaded_bad demo_load_bad by simp
  have parses: "RubyParse demo ''x = __FILE__''
                  = Some [Assignment (BareReference ''x'') FileNameConstReference]"
    by (simp add: demo_def demo_parse_def)
  have main: "map_index (ObjectSpace ?s) ''main'' = MainObject"
    by (simp add: map_index_def NewVM_def)
  note inner = require_sets_and_restores_unit_name
      [OF names(1) members skip_foo open_foo read_foo,
        of 2 "[]" "[Assignment (BareReference ''x'') FileNameConstReference]",
        THEN conjunct2, rule_format, OF parses, unfolded Let_def, THEN conjunct2, rule_format,
        of 1 "[]" "[Assignment (BareReference ''x'') FileNameConstReference]",
        unfolded paths t0 main]
  have inside: "executeWithContext demo 2 [FileNameConstReference] MainObject
     (Unshift ''main''
        (?s\<lparr>trace := [OsOpen ''/a/foo.rb'', OsOpen ''/b/foo.rb''],
             currentFilename := ''/b/foo.rb''\<rparr>))
     = (Returned (StringValue ''/b/foo.rb'') None,
        Unshift ''main''
          (?s\<lparr>trace := [OsOpen ''/a/foo.rb'', OsOpen ''/b/foo.rb''],
               currentFilename := ''/b/foo.rb''\<rparr>))"
    using inner by (simp add: paths)
  from inside foo bad x failed show ?thesis
    by (simp only: t0)
qed

end
